theory Spec2Isabelle
  imports Main "HOL-Library.Multiset"
begin

section \<open>Data model of \<^verbatim>\<open>synchronization.service.ts\<close>\<close>

text \<open>
  JavaScript numbers are modelled as \<open>int\<close>: every number met here is an integer
  count of bytes, a day, a month or a year, and the model is exact as long as they stay
  below \<open>2^53\<close> in magnitude. The one non-integer value that the code can produce,
  \<^verbatim>\<open>NaN\<close> from \<^verbatim>\<open>parseInt\<close>, is modelled as \<open>None\<close>.
\<close>

datatype error =
    TypeError                \<comment> \<open>a property of \<^verbatim>\<open>undefined\<close> was read\<close>
  | Reason string            \<comment> \<open>a rejection carrying a message\<close>
  | Undefined                \<comment> \<open>\<^verbatim>\<open>reject()\<close> without a value\<close>
  | DbError                  \<comment> \<open>the database could not be opened or refused a statement\<close>
  | Failure nat              \<comment> \<open>an error raised by another collaborator\<close>

text \<open>A promise as seen once the event loop is idle: fulfilled, rejected, or never settled.\<close>

datatype 'a promise = Fulfilled 'a | Rejected error | Pending

record ILIASObject =
  objId :: nat
  type :: string
  title :: string
  needsDownload :: bool
  fileSize :: string         \<comment> \<open>\<^verbatim>\<open>data.fileSize\<close>, the raw text handed to \<^verbatim>\<open>parseInt\<close>\<close>
  isFavorite :: nat

record Settings =
  quotaSize :: int
  downloadSize :: int

record User =
  id_user :: nat
  settings :: "error + Settings"

datatype LeftOutReason = NoWLAN | FileTooBig | QuotaExceeded

record SyncResults =
  totalObjects :: "ILIASObject list"
  objectsDownloaded :: "ILIASObject list"
  objectsUnchanged :: "ILIASObject list"
  objectsLeftOut :: "(ILIASObject \<times> LeftOutReason) list"
  fileDownloads :: "unit promise list"

section \<open>\<^verbatim>\<open>parseInt(s, 10)\<close>\<close>

text \<open>
  ECMAScript \<^verbatim>\<open>parseInt\<close> with radix 10: leading white space is skipped, one sign is
  read, then the longest run of decimal digits; no digit at all gives \<^verbatim>\<open>NaN\<close>. Only the
  ASCII white space characters are recognised here, since \<open>char\<close> is a byte.
\<close>

definition isWhiteSpace :: "char \<Rightarrow> bool" where
  "isWhiteSpace c = (of_char c \<in> {9, 10, 11, 12, 13, 32 :: nat})"

definition isDigit :: "char \<Rightarrow> bool" where
  "isDigit c = (48 \<le> (of_char c :: nat) \<and> (of_char c :: nat) \<le> 57)"

fun digitsValue :: "int \<Rightarrow> string \<Rightarrow> int" where
  "digitsValue acc [] = acc"
| "digitsValue acc (c # cs) = digitsValue (acc * 10 + (int (of_char c) - 48)) cs"

definition parseInt :: "string \<Rightarrow> int option" where
  "parseInt s =
     (let t = dropWhile isWhiteSpace s;
          sign = (case t of c # r \<Rightarrow> if c = CHR ''-'' then - 1 else (1::int) | [] \<Rightarrow> 1);
          u = (case t of c # r \<Rightarrow> if c = CHR ''-'' \<or> c = CHR ''+'' then r else t | [] \<Rightarrow> t);
          z = takeWhile isDigit u
      in if z = [] then None else Some (sign * digitsValue 0 z))"

section \<open>\<^verbatim>\<open>checkForFileDownloads\<close>: sorting the files into categories\<close>

text \<open>The local arrays and the running counter of the callback in \<^verbatim>\<open>checkForFileDownloads\<close>.\<close>

record categories =
  downloads :: "ILIASObject list"
  filesTooBig :: "(ILIASObject \<times> LeftOutReason) list"
  noMoreSpace :: "(ILIASObject \<times> LeftOutReason) list"
  filesAlreadySynced :: "ILIASObject list"
  currentlyUsedSpace :: int

definition emptyCategories :: "int \<Rightarrow> categories" where
  "emptyCategories space =
     \<lparr>downloads = [], filesTooBig = [], noMoreSpace = [], filesAlreadySynced = [],
      currentlyUsedSpace = space\<rparr>"

text \<open>
  The body of \<^verbatim>\<open>fileObjects.forEach\<close>. A comparison with \<^verbatim>\<open>NaN\<close> is false, so a
  size that does not parse takes the \<^verbatim>\<open>else\<close> branch of the quota test.
\<close>

definition sortFile :: "int \<Rightarrow> int \<Rightarrow> categories \<Rightarrow> ILIASObject \<Rightarrow> categories" where
  "sortFile availableSpace downloadLimit c fileObject =
     (if needsDownload fileObject then
        (case parseInt (fileSize fileObject) of
           None \<Rightarrow> c\<lparr>noMoreSpace := noMoreSpace c @ [(fileObject, QuotaExceeded)]\<rparr>
         | Some size_f \<Rightarrow>
             if currentlyUsedSpace c + size_f \<le> availableSpace then
               if size_f \<le> downloadLimit then
                 c\<lparr>downloads := downloads c @ [fileObject],
                   currentlyUsedSpace := currentlyUsedSpace c + size_f\<rparr>
               else c\<lparr>filesTooBig := filesTooBig c @ [(fileObject, FileTooBig)]\<rparr>
             else c\<lparr>noMoreSpace := noMoreSpace c @ [(fileObject, QuotaExceeded)]\<rparr>)
      else c\<lparr>filesAlreadySynced := filesAlreadySynced c @ [fileObject]\<rparr>)"

definition isFile :: "ILIASObject \<Rightarrow> bool" where
  "isFile iliasObject = (type iliasObject = ''file'')"

text \<open>
  Everything \<^verbatim>\<open>checkForFileDownloads\<close> computes once the settings and the used disk
  space are known, up to the dispatch of the downloads.
\<close>

definition sortFiles :: "Settings \<Rightarrow> int \<Rightarrow> ILIASObject list \<Rightarrow> categories" where
  "sortFiles st space iliasObjects =
     foldl (sortFile (quotaSize st * 1000 * 1000) (downloadSize st * 1000 * 1000))
       (emptyCategories space) (filter isFile iliasObjects)"

text \<open>The size in bytes of a file whose size text parses (0 stands in for \<^verbatim>\<open>NaN\<close>).\<close>

definition bytes :: "ILIASObject \<Rightarrow> int" where
  "bytes f = (case parseInt (fileSize f) of Some n \<Rightarrow> n | None \<Rightarrow> 0)"

section \<open>The service, its collaborators and promises\<close>

text \<open>
  A \<^verbatim>\<open>Date\<close> through the three getters the code reads. \<open>getMonth\<close> counts from 0, as
  in JavaScript. The text that the database stores for a day and the local calendar fields
  that \<^verbatim>\<open>new Date(text)\<close> yields are identified: time zones are left out.
\<close>

record Date =
  getFullYear :: int
  getMonth :: nat
  getDate :: nat

text \<open>One row of the table \<^verbatim>\<open>synchronization\<close>.\<close>

record SyncRow =
  userId :: nat
  startDate :: Date
  endDate :: "Date option"
  recursiveSyncRunning_row :: bool

datatype Job = FileDownload

record SynchronizationState =
  liveLoading :: bool
  loadingOfflineContent :: bool
  recursiveSyncRunning :: bool

text \<open>
  An entry of \<^verbatim>\<open>recursiveSyncQueue\<close>. The resolver and the rejecter both belong to the
  promise handed to the caller that was made to wait; \<open>waiter\<close> numbers that promise.
\<close>

record SyncEntry =
  object :: ILIASObject
  waiter :: nat

datatype dbOutcome = QueryOk | QueryFails | InstanceFails

text \<open>
  What the collaborators answer. None of them is part of the service: the current user, the
  database (one outcome for each access, counted from 0), the clock, the translations, the
  data provider, the disk, the file service, the learnplace loader and the user who may
  remove a favourite while it is synchronised.
\<close>

record env =
  currentUser :: "error + User"
  dbOutcome :: "nat \<Rightarrow> dbOutcome"
  now :: Date
  instant :: "string \<Rightarrow> string"
  getDesktopData :: "error + ILIASObject list"
  getObjectData :: "ILIASObject \<Rightarrow> bool \<Rightarrow> error + ILIASObject list"
  getTotalDiskSpace :: "error + int"
  download :: "ILIASObject \<Rightarrow> error + unit"
  isLearnplace :: "ILIASObject \<Rightarrow> bool"
  load :: "nat \<Rightarrow> error + unit"
  findByUserId :: "nat \<Rightarrow> error + ILIASObject list"
  unmarked :: "ILIASObject \<Rightarrow> bool"

text \<open>
  The fields of \<^verbatim>\<open>SynchronizationService\<close> (with the static \<open>state\<close>), followed by what
  the service does to its collaborators: the table, the number of database accesses, the
  events published, the jobs of \<^verbatim>\<open>footerToolbarOfflineContent\<close>, the downloads handed to
  the file service, the containers whose content download was begun, and the warnings
  written to the console.
\<close>

record service =
  state :: SynchronizationState
  user :: "User option"
  syncOfflineQueue :: "ILIASObject list"
  syncOfflineQueueCnt :: nat
  recursiveSyncQueue :: "SyncEntry list"
  lastSync :: "Date option"
  lastSyncString :: string
  synchronization :: "SyncRow list"
  dbCalls :: nat
  published :: "string list"
  footerJobs :: "(Job \<times> string) list"
  dispatched :: "ILIASObject list"
  containers :: "ILIASObject list"
  warnings :: "string list"
  promises :: nat

definition initialService :: service where
  "initialService =
     \<lparr>state = \<lparr>liveLoading = False, loadingOfflineContent = False, recursiveSyncRunning = False\<rparr>,
      user = None, syncOfflineQueue = [], syncOfflineQueueCnt = 0, recursiveSyncQueue = [],
      lastSync = None, lastSyncString = [], synchronization = [], dbCalls = 0,
      published = [], footerJobs = [], dispatched = [], containers = [], warnings = [],
      promises = 0\<rparr>"

type_synonym 'a async = "service \<Rightarrow> 'a promise \<times> service"

definition resolve :: "'a \<Rightarrow> 'a async" where
  "resolve v w = (Fulfilled v, w)"

definition reject :: "error \<Rightarrow> 'a async" where
  "reject e w = (Rejected e, w)"

text \<open>\<^verbatim>\<open>p.then(f)\<close> and \<^verbatim>\<open>p.catch(h)\<close>.\<close>

definition thenP :: "'a async \<Rightarrow> ('a \<Rightarrow> 'b async) \<Rightarrow> 'b async" where
  "thenP m f w =
     (case m w of
        (Fulfilled v, w') \<Rightarrow> f v w'
      | (Rejected e, w') \<Rightarrow> (Rejected e, w')
      | (Pending, w') \<Rightarrow> (Pending, w'))"

definition catchP :: "'a async \<Rightarrow> (error \<Rightarrow> 'a async) \<Rightarrow> 'a async" where
  "catchP m h w =
     (case m w of
        (Fulfilled v, w') \<Rightarrow> (Fulfilled v, w')
      | (Rejected e, w') \<Rightarrow> h e w'
      | (Pending, w') \<Rightarrow> (Pending, w'))"

text \<open>
  \<^verbatim>\<open>Promise.all\<close>: rejected as soon as one member is rejected, pending while a member is
  pending and none is rejected, fulfilled otherwise.
\<close>

fun firstRejected :: "'a promise list \<Rightarrow> error option" where
  "firstRejected [] = None"
| "firstRejected (Rejected e # ps) = Some e"
| "firstRejected (p # ps) = firstRejected ps"

definition promiseAll :: "unit promise list \<Rightarrow> unit promise" where
  "promiseAll ps =
     (case firstRejected ps of
        Some e \<Rightarrow> Rejected e
      | None \<Rightarrow> if Pending \<in> set ps then Pending else Fulfilled ())"

definition loadCurrentUser :: "env \<Rightarrow> unit async" where
  "loadCurrentUser en w =
     (case currentUser en of
        Inl e \<Rightarrow> (Rejected e, w)
      | Inr u \<Rightarrow> (Fulfilled (), w\<lparr>user := Some u\<rparr>))"

text \<open>One access to the database: the outcome, and the access counted.\<close>

definition dbAccess :: "env \<Rightarrow> service \<Rightarrow> dbOutcome \<times> service" where
  "dbAccess en w = (dbOutcome en (dbCalls w), w\<lparr>dbCalls := dbCalls w + 1\<rparr>)"

section \<open>\<^verbatim>\<open>checkForFileDownloads\<close>, \<^verbatim>\<open>executeFileDownloads\<close>, \<^verbatim>\<open>downloadContainerContent\<close>\<close>

definition executeFileDownloads :: "env \<Rightarrow> ILIASObject list \<Rightarrow> unit promise list" where
  "executeFileDownloads en ds =
     map (\<lambda>d. case download en d of Inl e \<Rightarrow> Rejected e | Inr u \<Rightarrow> Fulfilled ()) ds"

text \<open>
  A missing user makes the executor of the promise throw, which rejects it. A rejection of
  the settings or of the disk space is caught by a handler that settles nothing, so the
  promise stays pending. Every scheduled download is handed to the file service before the
  promise is resolved.
\<close>

definition checkForFileDownloads :: "env \<Rightarrow> ILIASObject list \<Rightarrow> SyncResults async" where
  "checkForFileDownloads en iliasObjects w =
     (case user w of
        None \<Rightarrow> (Rejected TypeError, w)
      | Some u \<Rightarrow>
          (case settings u of
             Inl e \<Rightarrow> (Pending, w)
           | Inr st \<Rightarrow>
               (case getTotalDiskSpace en of
                  Inl e \<Rightarrow> (Pending, w)
                | Inr space \<Rightarrow>
                    (let c = sortFiles st space iliasObjects
                     in (Fulfilled
                           \<lparr>totalObjects = filter isFile iliasObjects,
                            objectsDownloaded = downloads c,
                            objectsUnchanged = filesAlreadySynced c,
                            objectsLeftOut = filesTooBig c @ noMoreSpace c,
                            fileDownloads = executeFileDownloads en (downloads c)\<rparr>,
                         w\<lparr>dispatched := dispatched w @ downloads c\<rparr>)))))"

text \<open>
  \<^verbatim>\<open>Observable.merge(...).toPromise()\<close> over the learnplaces of the tree: rejected when a
  load fails. The write \<^verbatim>\<open>it.needsDownload = false\<close> on a loaded learnplace is not
  tracked, the objects being values here.
\<close>

fun firstFailure :: "(error + unit) list \<Rightarrow> error option" where
  "firstFailure [] = None"
| "firstFailure (Inl e # rs) = Some e"
| "firstFailure (Inr u # rs) = firstFailure rs"

definition downloadLearnplaces :: "env \<Rightarrow> ILIASObject list \<Rightarrow> unit async" where
  "downloadLearnplaces en tree w =
     (case firstFailure (map (\<lambda>it. load en (objId it)) (filter (isLearnplace en) tree)) of
        Some e \<Rightarrow> (Rejected e, w)
      | None \<Rightarrow> (Fulfilled (), w))"

definition awaitFileDownloads :: "ILIASObject \<Rightarrow> SyncResults \<Rightarrow> unit async" where
  "awaitFileDownloads container syncResults =
     catchP (\<lambda>w. (promiseAll (fileDownloads syncResults), w))
       (\<lambda>e w. (Fulfilled (),
          w\<lparr>warnings := warnings w @
            [''Encountered some problem in method 'downloadContainerContent' with container ''
               @ title container]\<rparr>))"

definition downloadContainerContent :: "env \<Rightarrow> ILIASObject \<Rightarrow> SyncResults async" where
  "downloadContainerContent en container w =
     (case getObjectData en container True of
        Inl e \<Rightarrow> (Rejected e, w)
      | Inr found \<Rightarrow>
          (let iliasObjects = found @ [container]
           in thenP (checkForFileDownloads en iliasObjects)
                (\<lambda>syncResults.
                   thenP (awaitFileDownloads container syncResults)
                     (\<lambda>u. thenP (downloadLearnplaces en iliasObjects)
                        (\<lambda>u. resolve syncResults))) w))"

section \<open>The session ledger: \<^verbatim>\<open>syncStarted\<close>, \<^verbatim>\<open>syncEnded\<close>, \<^verbatim>\<open>updateLastSync\<close>, \<^verbatim>\<open>hasUnfinishedSync\<close>\<close>

text \<open>A number as JavaScript prints it when it is concatenated to a string.\<close>

fun showNat :: "nat \<Rightarrow> string" where
  "showNat n =
     (if n < 10 then [char_of (48 + n)]
      else showNat (n div 10) @ [char_of (48 + n mod 10)])"

declare showNat.simps [simp del]

definition showInt :: "int \<Rightarrow> string" where
  "showInt i = (if i < 0 then CHR ''-'' # showNat (nat (- i)) else showNat (nat i))"

text \<open>
  \<^verbatim>\<open>INSERT INTO synchronization ... VALUES (userId, date('now'), NULL, 1)\<close>. A failure to
  open the database, or a missing user inside the callback, leaves the promise unsettled:
  neither \<^verbatim>\<open>resolve\<close> nor \<^verbatim>\<open>reject\<close> is reached.
\<close>

definition syncStarted :: "env \<Rightarrow> unit async" where
  "syncStarted en w =
     (let w1 = w\<lparr>state := (state w)\<lparr>recursiveSyncRunning := True\<rparr>\<rparr>
      in case dbAccess en w1 of
           (InstanceFails, w2) \<Rightarrow> (Pending, w2)
         | (outcome, w2) \<Rightarrow>
             (case user w2 of
                None \<Rightarrow> (Pending, w2)
              | Some u \<Rightarrow>
                  if outcome = QueryFails then (Rejected Undefined, w2)
                  else (Fulfilled (),
                        w2\<lparr>synchronization := synchronization w2 @
                             [\<lparr>userId = id_user u, startDate = now en, endDate = None,
                               recursiveSyncRunning_row = True\<rparr>]\<rparr>)))"

text \<open>The order of the stored day texts \<^verbatim>\<open>YYYY-MM-DD\<close>, and the row \<^verbatim>\<open>ORDER BY endDate DESC LIMIT 1\<close> keeps.\<close>

definition dateLess :: "Date \<Rightarrow> Date \<Rightarrow> bool" where
  "dateLess a b =
     (getFullYear a < getFullYear b
      \<or> (getFullYear a = getFullYear b
          \<and> (getMonth a < getMonth b \<or> (getMonth a = getMonth b \<and> getDate a < getDate b))))"

fun latest :: "Date list \<Rightarrow> Date option" where
  "latest [] = None"
| "latest (d # ds) =
     (case latest ds of
        None \<Rightarrow> Some d
      | Some m \<Rightarrow> if dateLess d m then Some m else Some d)"

fun endDates :: "nat \<Rightarrow> SyncRow list \<Rightarrow> Date list" where
  "endDates u [] = []"
| "endDates u (r # rs) =
     (case endDate r of
        Some d \<Rightarrow> if userId r = u then d # endDates u rs else endDates u rs
      | None \<Rightarrow> endDates u rs)"

text \<open>The text that \<^verbatim>\<open>updateLastSync\<close> stores in \<^verbatim>\<open>lastSyncString\<close>.\<close>

definition lastSyncLabel :: "env \<Rightarrow> Date \<Rightarrow> string" where
  "lastSyncLabel en lastEnd =
     (let date_string =
            (if getMonth (now en) = getMonth lastEnd \<and> getFullYear (now en) = getFullYear lastEnd then
               (if getDate (now en) = getDate lastEnd then instant en ''today''
                else if int (getDate (now en)) - 1 = int (getDate lastEnd) then instant en ''yesterday''
                else [])
             else [])
      in if date_string \<noteq> [] then date_string
         else showNat (getDate lastEnd) @ ''.'' @ showNat (getMonth lastEnd + 1) @ ''.''
              @ showInt (getFullYear lastEnd))"

definition updateLastSync :: "env \<Rightarrow> nat \<Rightarrow> Date option async" where
  "updateLastSync en u w =
     (case dbAccess en w of
        (QueryOk, w1) \<Rightarrow>
          (case latest (endDates u (synchronization w1)) of
             None \<Rightarrow> (Fulfilled None, w1)
           | Some lastEnd \<Rightarrow>
               (Fulfilled (Some lastEnd),
                w1\<lparr>lastSync := Some lastEnd, lastSyncString := lastSyncLabel en lastEnd\<rparr>))
      | (outcome, w1) \<Rightarrow> (Rejected DbError, w1))"

text \<open>
  \<^verbatim>\<open>UPDATE synchronization SET recursiveSyncRunning = 0, endDate = date('now')
  WHERE userId = ... AND recursiveSyncRunning = 1\<close>
\<close>

definition closeRows :: "env \<Rightarrow> nat \<Rightarrow> SyncRow list \<Rightarrow> SyncRow list" where
  "closeRows en u rows =
     map (\<lambda>r. if userId r = u \<and> recursiveSyncRunning_row r
               then r\<lparr>recursiveSyncRunning_row := False, endDate := Some (now en)\<rparr> else r) rows"

definition syncEnded :: "env \<Rightarrow> Date option async" where
  "syncEnded en w =
     (let w1 = w\<lparr>state := (state w)\<lparr>recursiveSyncRunning := False\<rparr>\<rparr>
      in case dbAccess en w1 of
           (InstanceFails, w2) \<Rightarrow> (Rejected DbError, w2)
         | (outcome, w2) \<Rightarrow>
             (case user w2 of
                None \<Rightarrow> (Rejected TypeError, w2)
              | Some u \<Rightarrow>
                  if outcome = QueryFails then (Rejected DbError, w2)
                  else updateLastSync en (id_user u)
                         (w2\<lparr>synchronization := closeRows en (id_user u) (synchronization w2)\<rparr>)))"

definition hasUnfinishedSync :: "env \<Rightarrow> User option \<Rightarrow> bool async" where
  "hasUnfinishedSync en usr w =
     (case usr of
        None \<Rightarrow> (Rejected (Reason ''No user given.''), w)
      | Some u \<Rightarrow>
          (case dbAccess en w of
             (QueryOk, w1) \<Rightarrow>
               (Fulfilled
                  (0 < length (filter (\<lambda>r. recursiveSyncRunning_row r \<and> userId r = id_user u)
                                 (synchronization w1))),
                w1)
           | (outcome, w1) \<Rightarrow> (Rejected DbError, w1)))"

section \<open>\<^verbatim>\<open>liveLoad\<close> and \<^verbatim>\<open>executeLiveLoad\<close>\<close>

text \<open>
  The argument of \<^verbatim>\<open>.catch(await this.syncEnded())\<close> is evaluated once the request to the
  data provider is out and before anything else: \<^verbatim>\<open>syncEnded\<close> runs first, a rejection
  of it is thrown by the \<^verbatim>\<open>await\<close>, and its value, which is no function, makes the
  \<^verbatim>\<open>catch\<close> pass every rejection on. The database accesses of that first
  \<^verbatim>\<open>syncEnded\<close> are taken to end before the data provider answers.
\<close>

definition executeLiveLoad :: "env \<Rightarrow> ILIASObject option \<Rightarrow> ILIASObject list async" where
  "executeLiveLoad en parent =
     (let iliasObjects =
            (case parent of None \<Rightarrow> getDesktopData en | Some p \<Rightarrow> getObjectData en p False)
      in thenP (syncEnded en)
           (\<lambda>handler.
              case iliasObjects of
                Inl e \<Rightarrow> reject e
              | Inr found \<Rightarrow> thenP (syncEnded en) (\<lambda>d. resolve found)))"

definition publish :: "string \<Rightarrow> service \<Rightarrow> service" where
  "publish name w = w\<lparr>published := published w @ [name]\<rparr>"

definition liveLoad :: "env \<Rightarrow> ILIASObject option \<Rightarrow> ILIASObject list async" where
  "liveLoad en iliasObject w =
     thenP (loadCurrentUser en)
       (\<lambda>u. thenP
          (catchP (thenP (syncStarted en) (\<lambda>u. executeLiveLoad en iliasObject))
             (\<lambda>error. thenP (syncEnded en) (\<lambda>d w'. (Rejected error, publish ''sync:complete'' w'))))
          (\<lambda>promise w'. (Fulfilled promise, w'\<lparr>state := (state w')\<lparr>liveLoading := False\<rparr>\<rparr>)))
       (w\<lparr>state := (state w)\<lparr>liveLoading := True\<rparr>\<rparr>)"

section \<open>\<^verbatim>\<open>loadOfflineObjectRecursive\<close> and the queue of waiting requests\<close>

text \<open>
  Modelled from the spec: \<^verbatim>\<open>ILIASObject.setIsFavorite\<close> is not part of the source at
  hand; it sets the favourite tri-state of the node (0 not a favourite, 1 favourite, 2
  favourite being synchronised).
\<close>

definition setIsFavorite :: "nat \<Rightarrow> ILIASObject \<Rightarrow> ILIASObject" where
  "setIsFavorite v iliasObject = iliasObject\<lparr>isFavorite := v\<rparr>"

text \<open>
  \<^verbatim>\<open>loadOfflineObjectRecursive\<close> up to the point where it either returns the promise of a
  queued request (\<open>Some\<close> of its number) or calls \<^verbatim>\<open>downloadContainerContent\<close>
  (\<open>None\<close>, the container entered in \<open>containers\<close>). The flag is read, never written.
\<close>

definition loadOfflineObjectRecursive_begin :: "ILIASObject \<Rightarrow> service \<Rightarrow> nat option \<times> service" where
  "loadOfflineObjectRecursive_begin obj w =
     (let iliasObject = setIsFavorite 2 obj
      in if recursiveSyncRunning (state w) then
           (Some (promises w),
            w\<lparr>recursiveSyncQueue := recursiveSyncQueue w @ [\<lparr>object = iliasObject, waiter = promises w\<rparr>],
              promises := promises w + 1\<rparr>)
         else (None, w\<lparr>containers := containers w @ [iliasObject]\<rparr>))"

text \<open>
  The \<^verbatim>\<open>then\<close> handler that runs when \<^verbatim>\<open>downloadContainerContent\<close> is fulfilled:
  \<^verbatim>\<open>pop\<close> takes the entry pushed last and \<^verbatim>\<open>loadOfflineObjectRecursive\<close> is called for
  its object. The \<^verbatim>\<open>catch\<close> handler, which runs when it is rejected, only rejects again.
\<close>

definition loadOfflineObjectRecursive_then :: "service \<Rightarrow> service" where
  "loadOfflineObjectRecursive_then w =
     (if length (recursiveSyncQueue w) > 0 then
        (let sync = last (recursiveSyncQueue w);
             w1 = w\<lparr>recursiveSyncQueue := butlast (recursiveSyncQueue w)\<rparr>
         in snd (loadOfflineObjectRecursive_begin (object sync) w1))
      else w)"

definition loadOfflineObjectRecursive_catch :: "service \<Rightarrow> service" where
  "loadOfflineObjectRecursive_catch w = w"

text \<open>
  The whole call when nothing else happens before its download settles. A request that is
  queued stays pending; the download begun for a popped entry goes on in the background.
\<close>

definition loadOfflineObjectRecursive :: "env \<Rightarrow> ILIASObject \<Rightarrow> SyncResults async" where
  "loadOfflineObjectRecursive en obj w =
     (case loadOfflineObjectRecursive_begin obj w of
        (Some p, w1) \<Rightarrow> (Pending, w1)
      | (None, w1) \<Rightarrow>
          (case downloadContainerContent en (setIsFavorite 2 obj) w1 of
             (Fulfilled syncResult, w2) \<Rightarrow> (Fulfilled syncResult, loadOfflineObjectRecursive_then w2)
           | (Rejected e, w2) \<Rightarrow> (Rejected e, loadOfflineObjectRecursive_catch w2)
           | (Pending, w2) \<Rightarrow> (Pending, w2)))"

text \<open>
  What can happen to the service between two of its own steps: a recursive synchronisation
  is requested, the content download of a running one is fulfilled or rejected, and a
  session is opened or closed (by \<^verbatim>\<open>liveLoad\<close> or \<^verbatim>\<open>executeNewsSync\<close>).
\<close>

datatype event =
    Requested ILIASObject
  | DownloadFulfilled
  | DownloadRejected
  | SessionStarted
  | SessionEnded

fun step :: "env \<Rightarrow> service \<Rightarrow> event \<Rightarrow> service" where
  "step en w (Requested obj) = snd (loadOfflineObjectRecursive_begin obj w)"
| "step en w DownloadFulfilled = loadOfflineObjectRecursive_then w"
| "step en w DownloadRejected = loadOfflineObjectRecursive_catch w"
| "step en w SessionStarted = snd (syncStarted en w)"
| "step en w SessionEnded = snd (syncEnded en w)"

definition run :: "env \<Rightarrow> service \<Rightarrow> event list \<Rightarrow> service" where
  "run en w evs = foldl (step en) w evs"

section \<open>The offline queue: \<^verbatim>\<open>addObjectsToSyncQueue\<close>, \<^verbatim>\<open>processOfflineSyncQueue\<close>\<close>

text \<open>
  Modelled from the spec: \<^verbatim>\<open>FooterToolbarService\<close> is not part of the source at hand;
  \<^verbatim>\<open>removeJob\<close> clears the status of a kind of job and \<^verbatim>\<open>addJob\<close> sets it.
\<close>

definition removeJob :: "Job \<Rightarrow> (Job \<times> string) list \<Rightarrow> (Job \<times> string) list" where
  "removeJob j jobs = filter (\<lambda>p. fst p \<noteq> j) jobs"

definition addJob :: "Job \<Rightarrow> string \<Rightarrow> (Job \<times> string) list \<Rightarrow> (Job \<times> string) list" where
  "addJob j msg jobs = jobs @ [(j, msg)]"

text \<open>
  \<^verbatim>\<open>this.syncOfflineQueue[this.syncOfflineQueueCnt].title\<close> throws a \<^verbatim>\<open>TypeError\<close>
  when the counter is not an index of the queue.
\<close>

definition updateOfflineSyncStatusMessage :: "env \<Rightarrow> service \<Rightarrow> error + service" where
  "updateOfflineSyncStatusMessage en w =
     (let cnt = syncOfflineQueueCnt w + 1;
          size_q = length (syncOfflineQueue w)
      in if syncOfflineQueueCnt w < length (syncOfflineQueue w) then
           (let title_q = title (syncOfflineQueue w ! syncOfflineQueueCnt w);
                footerMsg = instant en ''object-list.downloading'' @ '' '' @ showNat cnt @ ''/''
                              @ showNat size_q @ '' '' @ [CHR 0x22] @ title_q @ [CHR 0x22]
            in Inr (w\<lparr>footerJobs := addJob FileDownload footerMsg
                                       (removeJob FileDownload (footerJobs w))\<rparr>))
         else Inl TypeError)"

text \<open>
  The block guarded by \<^verbatim>\<open>if(ilObj.isFavorite)\<close>, for the node at the counter. The node is a
  shared object: what is written to it is written to the queue. Marking the subtree as
  available offline touches the catalogue only and is left out.
\<close>

definition markQueued :: "nat \<Rightarrow> service \<Rightarrow> service" where
  "markQueued v w =
     w\<lparr>syncOfflineQueue :=
         (syncOfflineQueue w)[syncOfflineQueueCnt w :=
            setIsFavorite v (syncOfflineQueue w ! syncOfflineQueueCnt w)]\<rparr>"

definition syncFavorite :: "env \<Rightarrow> ILIASObject \<Rightarrow> unit async" where
  "syncFavorite en ilObj w =
     thenP (loadOfflineObjectRecursive en ilObj)
       (\<lambda>r w'. (Fulfilled (), if \<not> unmarked en ilObj then markQueued 1 w' else markQueued 0 w'))
       (markQueued 2 w)"

lemma loadOfflineObjectRecursive_begin_queue:
  "syncOfflineQueue (snd (loadOfflineObjectRecursive_begin obj w)) = syncOfflineQueue w
   \<and> syncOfflineQueueCnt (snd (loadOfflineObjectRecursive_begin obj w)) = syncOfflineQueueCnt w"
  by (simp add: loadOfflineObjectRecursive_begin_def Let_def)

lemma downloadContainerContent_queue:
  "syncOfflineQueue (snd (downloadContainerContent en c w)) = syncOfflineQueue w
   \<and> syncOfflineQueueCnt (snd (downloadContainerContent en c w)) = syncOfflineQueueCnt w"
  by (simp add: downloadContainerContent_def checkForFileDownloads_def awaitFileDownloads_def
      downloadLearnplaces_def thenP_def catchP_def resolve_def Let_def
      split: sum.splits option.splits promise.splits prod.splits)

lemma loadOfflineObjectRecursive_queue:
  "syncOfflineQueue (snd (loadOfflineObjectRecursive en obj w)) = syncOfflineQueue w
   \<and> syncOfflineQueueCnt (snd (loadOfflineObjectRecursive en obj w)) = syncOfflineQueueCnt w"
proof -
  obtain q w1 where b: "loadOfflineObjectRecursive_begin obj w = (q, w1)"
    by (cases "loadOfflineObjectRecursive_begin obj w")
  have w1: "syncOfflineQueue w1 = syncOfflineQueue w \<and> syncOfflineQueueCnt w1 = syncOfflineQueueCnt w"
    using loadOfflineObjectRecursive_begin_queue [of obj w] b by simp
  obtain r w2 where d: "downloadContainerContent en (setIsFavorite 2 obj) w1 = (r, w2)"
    by (cases "downloadContainerContent en (setIsFavorite 2 obj) w1")
  have w2: "syncOfflineQueue w2 = syncOfflineQueue w \<and> syncOfflineQueueCnt w2 = syncOfflineQueueCnt w"
    using downloadContainerContent_queue [of en "setIsFavorite 2 obj" w1] d w1 by simp
  have t: "syncOfflineQueue (loadOfflineObjectRecursive_then w2) = syncOfflineQueue w2
      \<and> syncOfflineQueueCnt (loadOfflineObjectRecursive_then w2) = syncOfflineQueueCnt w2"
    using loadOfflineObjectRecursive_begin_queue
    by (simp add: loadOfflineObjectRecursive_then_def Let_def)
  show ?thesis
    using b d w1 w2 t
    by (cases q; cases r)
       (simp_all add: loadOfflineObjectRecursive_def loadOfflineObjectRecursive_catch_def)
qed

lemma syncFavorite_queue:
  "length (syncOfflineQueue (snd (syncFavorite en ilObj w))) = length (syncOfflineQueue w)
   \<and> syncOfflineQueueCnt (snd (syncFavorite en ilObj w)) = syncOfflineQueueCnt w"
proof -
  obtain r w1 where l: "loadOfflineObjectRecursive en ilObj (markQueued 2 w) = (r, w1)"
    by (cases "loadOfflineObjectRecursive en ilObj (markQueued 2 w)")
  have "syncOfflineQueue w1 = syncOfflineQueue (markQueued 2 w)
      \<and> syncOfflineQueueCnt w1 = syncOfflineQueueCnt (markQueued 2 w)"
    using loadOfflineObjectRecursive_queue [of en ilObj "markQueued 2 w"] l by simp
  then show ?thesis
    using l by (cases r) (simp_all add: syncFavorite_def thenP_def markQueued_def)
qed

text \<open>
  One call handles the node at the counter and calls itself for the next one. The status
  message is refreshed first, which fails as above should the counter have passed the end
  of the queue.
\<close>

function processOfflineSyncQueue :: "env \<Rightarrow> unit async" where
  "processOfflineSyncQueue en w =
     (if length (syncOfflineQueue w) = syncOfflineQueueCnt w then
        (Fulfilled (),
         w\<lparr>syncOfflineQueue := [], syncOfflineQueueCnt := 0,
           state := (state w)\<lparr>loadingOfflineContent := False\<rparr>\<rparr>)
      else
        (case updateOfflineSyncStatusMessage en
                (w\<lparr>state := (state w)\<lparr>loadingOfflineContent := True\<rparr>\<rparr>) of
           Inl e \<Rightarrow> (Rejected e, w\<lparr>state := (state w)\<lparr>loadingOfflineContent := True\<rparr>\<rparr>)
         | Inr w1 \<Rightarrow>
             (let ilObj = syncOfflineQueue w1 ! syncOfflineQueueCnt w1
              in case (if isFavorite ilObj \<noteq> 0 then syncFavorite en ilObj w1
                       else (Fulfilled (), w1)) of
                   (Fulfilled u, w2) \<Rightarrow>
                     processOfflineSyncQueue en
                       (w2\<lparr>syncOfflineQueueCnt := syncOfflineQueueCnt w2 + 1,
                           footerJobs := removeJob FileDownload (footerJobs w2)\<rparr>)
                 | (Rejected e, w2) \<Rightarrow> (Rejected e, w2)
                 | (Pending, w2) \<Rightarrow> (Pending, w2))))"
  by pat_completeness auto
termination
proof (relation "measure (\<lambda>(en, w). length (syncOfflineQueue w) - syncOfflineQueueCnt w)")
  show "wf (measure (\<lambda>(en, w). length (syncOfflineQueue w) - syncOfflineQueueCnt w))"
    by simp
next
  fix en :: env and w w1 w2 :: service and ilObj :: ILIASObject and p :: "unit promise" and u :: unit
  assume ne: "length (syncOfflineQueue w) \<noteq> syncOfflineQueueCnt w"
    and up: "updateOfflineSyncStatusMessage en
               (w\<lparr>state := (state w)\<lparr>loadingOfflineContent := True\<rparr>\<rparr>) = Inr w1"
    and il: "ilObj = syncOfflineQueue w1 ! syncOfflineQueueCnt w1"
    and res: "(p, w2) = (if isFavorite ilObj \<noteq> 0 then syncFavorite en ilObj w1 else (Fulfilled (), w1))"
  have lt: "syncOfflineQueueCnt w < length (syncOfflineQueue w)"
    using up by (simp add: updateOfflineSyncStatusMessage_def Let_def split: if_splits)
  have w1: "syncOfflineQueue w1 = syncOfflineQueue w \<and> syncOfflineQueueCnt w1 = syncOfflineQueueCnt w"
    using up by (auto simp add: updateOfflineSyncStatusMessage_def Let_def split: if_splits)
  have w2: "length (syncOfflineQueue w2) = length (syncOfflineQueue w1)
      \<and> syncOfflineQueueCnt w2 = syncOfflineQueueCnt w1"
  proof (cases "isFavorite ilObj \<noteq> 0")
    case True
    with res have "w2 = snd (syncFavorite en ilObj w1)" by (metis snd_conv)
    then show ?thesis using syncFavorite_queue [of en ilObj w1] by simp
  next
    case False
    with res show ?thesis by simp
  qed
  show "((en, w2\<lparr>syncOfflineQueueCnt := syncOfflineQueueCnt w2 + 1,
                  footerJobs := removeJob FileDownload (footerJobs w2)\<rparr>), en, w)
        \<in> measure (\<lambda>(en, w). length (syncOfflineQueue w) - syncOfflineQueueCnt w)"
    using lt w1 w2 by simp
qed

declare processOfflineSyncQueue.simps [simp del]

definition addObjectsToSyncQueue :: "env \<Rightarrow> ILIASObject list \<Rightarrow> unit async" where
  "addObjectsToSyncQueue en iliasObjects =
     thenP (loadCurrentUser en)
       (\<lambda>u w.
          case updateOfflineSyncStatusMessage en
                 (w\<lparr>syncOfflineQueue := syncOfflineQueue w @ iliasObjects\<rparr>) of
            Inl e \<Rightarrow> (Rejected e, w\<lparr>syncOfflineQueue := syncOfflineQueue w @ iliasObjects\<rparr>)
          | Inr w1 \<Rightarrow>
              if \<not> loadingOfflineContent (state w1) then processOfflineSyncQueue en w1
              else (Fulfilled (), w1))"

definition loadAllOfflineContent :: "env \<Rightarrow> unit async" where
  "loadAllOfflineContent en =
     thenP (loadCurrentUser en)
       (\<lambda>u w.
          case user w of
            None \<Rightarrow> (Rejected TypeError, w)
          | Some usr \<Rightarrow>
              (case findByUserId en (id_user usr) of
                 Inl e \<Rightarrow> (Rejected e, w)
               | Inr favorites \<Rightarrow>
                   if length favorites = 0 then (Fulfilled (), w)
                   else addObjectsToSyncQueue en favorites w))"

section \<open>Notions used to state the properties\<close>

text \<open>The two groups that \<^verbatim>\<open>objectsLeftOut\<close> holds, told apart by their reason.\<close>

definition tooLarge :: "SyncResults \<Rightarrow> ILIASObject list" where
  "tooLarge r = map fst (filter (\<lambda>p. snd p = FileTooBig) (objectsLeftOut r))"

definition quotaExceeded :: "SyncResults \<Rightarrow> ILIASObject list" where
  "quotaExceeded r = map fst (filter (\<lambda>p. snd p = QuotaExceeded) (objectsLeftOut r))"

text \<open>Every object sorted so far, with its multiplicity.\<close>

definition classified :: "categories \<Rightarrow> ILIASObject multiset" where
  "classified c = mset (downloads c) + mset (map fst (filesTooBig c))
     + mset (map fst (noMoreSpace c)) + mset (filesAlreadySynced c)"

text \<open>The invariant of the loop over the files.\<close>

definition quotaInv :: "int \<Rightarrow> int \<Rightarrow> int \<Rightarrow> categories \<Rightarrow> bool" where
  "quotaInv a l space c =
     (currentlyUsedSpace c = space + sum_list (map bytes (downloads c))
      \<and> (\<forall>k. 0 < k \<and> k \<le> length (downloads c) \<longrightarrow>
            space + sum_list (map bytes (take k (downloads c))) \<le> a)
      \<and> (\<forall>d \<in> set (downloads c). \<exists>n. parseInt (fileSize d) = Some n \<and> n \<le> l)
      \<and> (\<forall>p \<in> set (filesTooBig c). snd p = FileTooBig)
      \<and> (\<forall>p \<in> set (noMoreSpace c). snd p = QuotaExceeded))"

text \<open>Data for the worked examples: a user with a quota and a file limit in MB, and nodes.\<close>

definition userWith :: "int \<Rightarrow> int \<Rightarrow> User" where
  "userWith quota limit = \<lparr>id_user = 7, settings = Inr \<lparr>quotaSize = quota, downloadSize = limit\<rparr>\<rparr>"

definition node :: "nat \<Rightarrow> string \<Rightarrow> string \<Rightarrow> ILIASObject" where
  "node i ty sz =
     \<lparr>objId = i, type = ty, title = ''node'', needsDownload = True, fileSize = sz, isFavorite = 1\<rparr>"

definition day :: "int \<Rightarrow> nat \<Rightarrow> nat \<Rightarrow> Date" where
  "day y m d = \<lparr>getFullYear = y, getMonth = m - 1, getDate = d\<rparr>"

text \<open>Collaborators that never fail, on a day, with a disk use, and with the downloads given.\<close>

definition calmEnv :: "Date \<Rightarrow> int \<Rightarrow> (ILIASObject \<Rightarrow> error + unit) \<Rightarrow> env" where
  "calmEnv today used dl =
     \<lparr>currentUser = Inr (userWith 100 50), dbOutcome = (\<lambda>n. QueryOk), now = today,
      instant = (\<lambda>key. key), getDesktopData = Inr [], getObjectData = (\<lambda>p r. Inr []),
      getTotalDiskSpace = Inr used, download = dl, isLearnplace = (\<lambda>it. type it = ''xsrl''),
      load = (\<lambda>i. Inr ()), findByUserId = (\<lambda>u. Inr []), unmarked = (\<lambda>it. False)\<rparr>"

definition exampleTree :: "ILIASObject list" where
  "exampleTree = [node 1 ''file'' ''60000000'', node 2 ''file'' ''40000000'',
                  node 3 ''file'' ''30000000'', node 4 ''crs'' []]"

definition signedIn :: "User \<Rightarrow> service" where
  "signedIn u = initialService\<lparr>user := Some u\<rparr>"

definition bigFile :: ILIASObject where
  "bigFile = node 1 ''file'' ''60000000''"

definition sessionRow :: "nat \<Rightarrow> Date option \<Rightarrow> bool \<Rightarrow> SyncRow" where
  "sessionRow u e r =
     \<lparr>userId = u, startDate = day 2024 4 1, endDate = e, recursiveSyncRunning_row = r\<rparr>"

definition ledger :: "SyncRow list \<Rightarrow> service" where
  "ledger rows = (signedIn (userWith 100 50))\<lparr>synchronization := rows\<rparr>"

text \<open>A result of \<^verbatim>\<open>downloadContainerContent\<close> without the promises of its downloads.\<close>

definition withoutTasks :: "SyncResults promise \<Rightarrow> SyncResults promise" where
  "withoutTasks p = (case p of Fulfilled r \<Rightarrow> Fulfilled (r\<lparr>fileDownloads := []\<rparr>) | Rejected e \<Rightarrow> Rejected e | Pending \<Rightarrow> Pending)"

definition treeEnv :: "ILIASObject list \<Rightarrow> (ILIASObject \<Rightarrow> error + unit) \<Rightarrow> env" where
  "treeEnv tree dl = (calmEnv (day 2024 5 10) 0 dl)\<lparr>getObjectData := (\<lambda>p r. Inr tree)\<rparr>"

definition course :: ILIASObject where
  "course = node 9 ''crs'' []"

text \<open>The promise \<^verbatim>\<open>liveLoad\<close> attaches its \<^verbatim>\<open>catch\<close> to: the session opened, then the load.\<close>

definition liveLoad_attempt :: "env \<Rightarrow> ILIASObject option \<Rightarrow> ILIASObject list async" where
  "liveLoad_attempt en iliasObject = thenP (syncStarted en) (\<lambda>u. executeLiveLoad en iliasObject)"

text \<open>A database that refuses the first statement, and a service with a session open.\<close>

definition brokenInsert :: env where
  "brokenInsert = (calmEnv (day 2024 5 10) 0 (\<lambda>d. Inr ()))\<lparr>dbOutcome := (\<lambda>n. if n = 0 then QueryFails else QueryOk)\<rparr>"

definition openSession :: service where
  "openSession = snd (syncStarted (calmEnv (day 2024 5 10) 0 (\<lambda>d. Inr ())) (signedIn (userWith 100 50)))"

text \<open>Fixed collaborators and three containers for the runs below.\<close>

definition calm :: env where
  "calm = calmEnv (day 2024 5 10) 0 (\<lambda>d. Inr ())"

definition courseA :: ILIASObject where
  "courseA = node 1 ''crs'' []"

definition courseB :: ILIASObject where
  "courseB = node 2 ''crs'' []"

definition courseC :: ILIASObject where
  "courseC = node 3 ''crs'' []"

text \<open>The objects requested in a run, and runs in which no session is opened or closed.\<close>

fun requests :: "event list \<Rightarrow> ILIASObject list" where
  "requests [] = []"
| "requests (Requested obj # evs) = obj # requests evs"
| "requests (ev # evs) = requests evs"

fun sessionFree :: "event list \<Rightarrow> bool" where
  "sessionFree [] = True"
| "sessionFree (SessionStarted # evs) = False"
| "sessionFree (SessionEnded # evs) = False"
| "sessionFree (ev # evs) = sessionFree evs"

text \<open>
  A service in which a request for \<open>courseB\<close> waits (it came while a session was open) and
  the flag is clear again; a data provider that cannot list; the summary of an empty container.
\<close>

definition pendingB :: service where
  "pendingB = run calm (signedIn (userWith 100 50)) [SessionStarted, Requested courseB, SessionEnded]"

definition noListing :: env where
  "noListing = calm\<lparr>getObjectData := (\<lambda>p r. Inl (Failure 1))\<rparr>"

definition emptySummary :: SyncResults where
  "emptySummary = \<lparr>totalObjects = [], objectsDownloaded = [], objectsUnchanged = [],
                    objectsLeftOut = [], fileDownloads = []\<rparr>"

section \<open>Sorting the files: every file in one group, within the quota and the file limit\<close>

lemma classified_sortFile: "classified (sortFile a l c f) = classified c + {#f#}"
  by (simp add: classified_def sortFile_def split: option.splits)

lemma classified_foldl: "classified (foldl (sortFile a l) c fs) = classified c + mset fs"
  by (induction fs arbitrary: c) (simp_all add: classified_sortFile)

lemma classified_empty: "classified (emptyCategories space) = {#}"
  by (simp add: classified_def emptyCategories_def)

lemma classified_sortFiles: "classified (sortFiles st space objs) = mset (filter isFile objs)"
  unfolding sortFiles_def classified_foldl classified_empty by simp

lemma quotaInv_sortFile: "quotaInv a l space c \<Longrightarrow> quotaInv a l space (sortFile a l c f)"
proof (cases "needsDownload f")
  case False
  assume "quotaInv a l space c"
  with False show ?thesis by (simp add: quotaInv_def sortFile_def)
next
  case True
  assume inv: "quotaInv a l space c"
  show ?thesis
  proof (cases "parseInt (fileSize f)")
    case None
    with True inv show ?thesis by (simp add: quotaInv_def sortFile_def)
  next
    case (Some n)
    show ?thesis
    proof (cases "currentlyUsedSpace c + n \<le> a \<and> n \<le> l")
      case False
      with True Some inv show ?thesis by (auto simp add: quotaInv_def sortFile_def)
    next
      case fits: True
      have b: "bytes f = n" using Some by (simp add: bytes_def)
      have eq: "sortFile a l c f = c\<lparr>downloads := downloads c @ [f], currentlyUsedSpace := currentlyUsedSpace c + n\<rparr>"
        using True Some fits by (simp add: sortFile_def)
      have pre: "space + sum_list (map bytes (take k (downloads c @ [f]))) \<le> a"
        if "0 < k" "k \<le> length (downloads c @ [f])" for k
      proof (cases "k \<le> length (downloads c)")
        case True
        with that inv show ?thesis by (simp add: quotaInv_def)
      next
        case False
        with that have "k = Suc (length (downloads c))" by simp
        with inv fits b show ?thesis by (simp add: quotaInv_def)
      qed
      show ?thesis unfolding eq quotaInv_def
        using inv fits b Some pre by (auto simp add: quotaInv_def)
    qed
  qed
qed

lemma quotaInv_foldl: "quotaInv a l space c \<Longrightarrow> quotaInv a l space (foldl (sortFile a l) c fs)"
  by (induction fs arbitrary: c) (simp_all add: quotaInv_sortFile)

lemma quotaInv_sortFiles:
  "quotaInv (quotaSize st * 1000 * 1000) (downloadSize st * 1000 * 1000) space (sortFiles st space objs)"
  unfolding sortFiles_def
  by (rule quotaInv_foldl) (simp add: quotaInv_def emptyCategories_def)

lemma disjoint_of_distinct:
  assumes "distinct xs" "mset a + mset b + mset c + mset d = mset xs"
  shows "set a \<inter> set b = {} \<and> set a \<inter> set c = {} \<and> set a \<inter> set d = {}
       \<and> set b \<inter> set c = {} \<and> set b \<inter> set d = {} \<and> set c \<inter> set d = {}"
proof -
  have le: "count (mset a) x + count (mset b) x + count (mset c) x + count (mset d) x \<le> 1" for x
  proof -
    have "count (mset a + mset b + mset c + mset d) x = count (mset xs) x"
      using assms(2) by simp
    moreover have "count (mset xs) x \<le> 1"
      using assms(1) by (simp add: distinct_count_atmost_1)
    ultimately show ?thesis by simp
  qed
  have ab: "set p \<inter> set q = {}" if "\<And>x. count (mset p) x + count (mset q) x \<le> 1"
    for p q :: "'a list"
  proof (rule ccontr)
    assume "set p \<inter> set q \<noteq> {}"
    then obtain x where "x \<in> set p" "x \<in> set q" by blast
    then have "0 < count (mset p) x" "0 < count (mset q) x" by simp_all
    with that[of x] show False by linarith
  qed
  have "set a \<inter> set b = {}"
  proof (rule ab)
    fix x show "count (mset a) x + count (mset b) x \<le> 1" using le[of x] by linarith
  qed
  moreover have "set a \<inter> set c = {}"
  proof (rule ab)
    fix x show "count (mset a) x + count (mset c) x \<le> 1" using le[of x] by linarith
  qed
  moreover have "set a \<inter> set d = {}"
  proof (rule ab)
    fix x show "count (mset a) x + count (mset d) x \<le> 1" using le[of x] by linarith
  qed
  moreover have "set b \<inter> set c = {}"
  proof (rule ab)
    fix x show "count (mset b) x + count (mset c) x \<le> 1" using le[of x] by linarith
  qed
  moreover have "set b \<inter> set d = {}"
  proof (rule ab)
    fix x show "count (mset b) x + count (mset d) x \<le> 1" using le[of x] by linarith
  qed
  moreover have "set c \<inter> set d = {}"
  proof (rule ab)
    fix x show "count (mset c) x + count (mset d) x \<le> 1" using le[of x] by linarith
  qed
  ultimately show ?thesis by simp
qed

lemma leftOut_split:
  assumes "\<forall>p \<in> set tb. snd p = FileTooBig" "\<forall>p \<in> set ns. snd p = QuotaExceeded"
  shows "map fst (filter (\<lambda>p. snd p = FileTooBig) (tb @ ns)) = map fst tb
       \<and> map fst (filter (\<lambda>p. snd p = QuotaExceeded) (tb @ ns)) = map fst ns"
proof -
  have "filter (\<lambda>p. snd p = FileTooBig) tb = tb" using assms(1) by (simp add: filter_id_conv)
  moreover have "filter (\<lambda>p. snd p = FileTooBig) ns = []" using assms(2) by (auto simp add: filter_empty_conv)
  moreover have "filter (\<lambda>p. snd p = QuotaExceeded) ns = ns" using assms(2) by (simp add: filter_id_conv)
  moreover have "filter (\<lambda>p. snd p = QuotaExceeded) tb = []" using assms(1) by (auto simp add: filter_empty_conv)
  ultimately show ?thesis by simp
qed

text \<open>
  Claim C1. Once the settings and the used disk space are known, \<^verbatim>\<open>checkForFileDownloads\<close>
  resolves, and its result sorts exactly the nodes of type \<^verbatim>\<open>file\<close> of its input: each
  occurrence of such a node is in exactly one of the downloads, the unchanged files, the
  files that are too large and the files beyond the quota, which are pairwise disjoint for
  an input without repetition. After each scheduled download, taken in the order of the
  input, the used space plus the sizes scheduled so far is within the quota, and every
  scheduled file is within the limit for one file.
\<close>

theorem checkForFileDownloads_partition:
  assumes "user w = Some u" and "settings u = Inr st" and "getTotalDiskSpace en = Inr space"
  shows "\<exists>r w'. checkForFileDownloads en iliasObjects w = (Fulfilled r, w')
     \<and> totalObjects r = filter isFile iliasObjects
     \<and> objectsDownloaded r = downloads (sortFiles st space iliasObjects)
     \<and> mset (objectsDownloaded r) + mset (objectsUnchanged r) + mset (tooLarge r)
         + mset (quotaExceeded r) = mset (filter isFile iliasObjects)
     \<and> (distinct iliasObjects \<longrightarrow>
          set (objectsDownloaded r) \<inter> set (objectsUnchanged r) = {}
        \<and> set (objectsDownloaded r) \<inter> set (tooLarge r) = {}
        \<and> set (objectsDownloaded r) \<inter> set (quotaExceeded r) = {}
        \<and> set (objectsUnchanged r) \<inter> set (tooLarge r) = {}
        \<and> set (objectsUnchanged r) \<inter> set (quotaExceeded r) = {}
        \<and> set (tooLarge r) \<inter> set (quotaExceeded r) = {})
     \<and> (\<forall>k. 0 < k \<and> k \<le> length (objectsDownloaded r) \<longrightarrow>
          space + sum_list (map bytes (take k (objectsDownloaded r))) \<le> quotaSize st * 1000 * 1000)
     \<and> (\<forall>d \<in> set (objectsDownloaded r).
          \<exists>n. parseInt (fileSize d) = Some n \<and> n \<le> downloadSize st * 1000 * 1000)"
proof -
  define c where "c = sortFiles st space iliasObjects"
  define r where "r = \<lparr>totalObjects = filter isFile iliasObjects,
                            objectsDownloaded = downloads c,
                            objectsUnchanged = filesAlreadySynced c,
                            objectsLeftOut = filesTooBig c @ noMoreSpace c,
                            fileDownloads = executeFileDownloads en (downloads c)\<rparr>"
  have res: "checkForFileDownloads en iliasObjects w = (Fulfilled r, w\<lparr>dispatched := dispatched w @ downloads c\<rparr>)"
    using assms by (simp add: checkForFileDownloads_def r_def c_def Let_def)
  have inv: "quotaInv (quotaSize st * 1000 * 1000) (downloadSize st * 1000 * 1000) space c"
    unfolding c_def by (rule quotaInv_sortFiles)
  have groups: "tooLarge r = map fst (filesTooBig c) \<and> quotaExceeded r = map fst (noMoreSpace c)"
    using inv leftOut_split [of "filesTooBig c" "noMoreSpace c"]
    by (simp add: tooLarge_def quotaExceeded_def r_def quotaInv_def)
  have cl: "classified c = mset (filter isFile iliasObjects)"
    unfolding c_def by (rule classified_sortFiles)
  have part: "mset (objectsDownloaded r) + mset (objectsUnchanged r) + mset (tooLarge r)
         + mset (quotaExceeded r) = mset (filter isFile iliasObjects)"
    using cl groups by (simp add: classified_def r_def add.commute add.left_commute)
  have dis: "set (objectsDownloaded r) \<inter> set (objectsUnchanged r) = {}
        \<and> set (objectsDownloaded r) \<inter> set (tooLarge r) = {}
        \<and> set (objectsDownloaded r) \<inter> set (quotaExceeded r) = {}
        \<and> set (objectsUnchanged r) \<inter> set (tooLarge r) = {}
        \<and> set (objectsUnchanged r) \<inter> set (quotaExceeded r) = {}
        \<and> set (tooLarge r) \<inter> set (quotaExceeded r) = {}" if "distinct iliasObjects"
    using that part by (intro disjoint_of_distinct [of "filter isFile iliasObjects"]) simp_all
  have cum: "\<forall>k. 0 < k \<and> k \<le> length (objectsDownloaded r) \<longrightarrow>
          space + sum_list (map bytes (take k (objectsDownloaded r))) \<le> quotaSize st * 1000 * 1000"
    using inv by (simp add: quotaInv_def r_def)
  have lim: "\<forall>d \<in> set (objectsDownloaded r).
          \<exists>n. parseInt (fileSize d) = Some n \<and> n \<le> downloadSize st * 1000 * 1000"
    using inv by (simp add: quotaInv_def r_def)
  have tot: "totalObjects r = filter isFile iliasObjects"
    and dl: "objectsDownloaded r = downloads (sortFiles st space iliasObjects)"
    by (simp_all add: r_def c_def)
  show ?thesis
    using res tot dl part dis cum lim by blast
qed


lemma parseInt_examples:
  "parseInt ''60000000'' = Some 60000000" "parseInt ''40000000'' = Some 40000000"
  "parseInt ''30000000'' = Some 30000000"
  by (simp_all add: parseInt_def isWhiteSpace_def isDigit_def Let_def)

lemma checkForFileDownloads_example1:
  "map objId (downloads (sortFiles \<lparr>quotaSize = 100, downloadSize = 50\<rparr> 0 exampleTree)) = [2, 3]
   \<and> map (objId \<circ> fst) (filesTooBig (sortFiles \<lparr>quotaSize = 100, downloadSize = 50\<rparr> 0 exampleTree)) = [1]
   \<and> noMoreSpace (sortFiles \<lparr>quotaSize = 100, downloadSize = 50\<rparr> 0 exampleTree) = []
   \<and> currentlyUsedSpace (sortFiles \<lparr>quotaSize = 100, downloadSize = 50\<rparr> 0 exampleTree) = 70000000"
  by (simp add: exampleTree_def node_def sortFiles_def isFile_def sortFile_def emptyCategories_def
        parseInt_examples)

lemma checkForFileDownloads_example2:
  "map objId (downloads (sortFiles \<lparr>quotaSize = 50, downloadSize = 50\<rparr> 0
       [node 1 ''file'' ''30000000'', node 2 ''file'' ''30000000''])) = [1]
   \<and> map (\<lambda>p. objId (fst p)) (noMoreSpace (sortFiles \<lparr>quotaSize = 50, downloadSize = 50\<rparr> 0
       [node 1 ''file'' ''30000000'', node 2 ''file'' ''30000000''])) = [2]
   \<and> filesTooBig (sortFiles \<lparr>quotaSize = 50, downloadSize = 50\<rparr> 0
       [node 1 ''file'' ''30000000'', node 2 ''file'' ''30000000'']) = []"
  by (simp add: node_def sortFiles_def isFile_def sortFile_def emptyCategories_def
        parseInt_examples)

theorem checkForFileDownloads_partition_witness:
  "\<exists>r w'. checkForFileDownloads (calmEnv (day 2024 5 10) 0 (\<lambda>d. Inr ())) exampleTree
             (signedIn (userWith 100 50)) = (Fulfilled r, w')
     \<and> mset (objectsDownloaded r) + mset (objectsUnchanged r) + mset (tooLarge r)
         + mset (quotaExceeded r) = mset (filter isFile exampleTree)
     \<and> set (objectsDownloaded r) \<inter> set (tooLarge r) = {}
     \<and> map objId (objectsDownloaded r) = [2, 3]
     \<and> 0 + sum_list (map bytes (take 2 (objectsDownloaded r))) \<le> 100 * 1000 * 1000"
proof -
  let ?st = "\<lparr>quotaSize = 100, downloadSize = 50\<rparr>"
  have u: "user (signedIn (userWith 100 50)) = Some (userWith 100 50)"
    by (simp add: signedIn_def)
  have s: "settings (userWith 100 50) = Inr ?st"
    by (simp add: userWith_def)
  have d: "getTotalDiskSpace (calmEnv (day 2024 5 10) 0 (\<lambda>d. Inr ())) = Inr 0"
    by (simp add: calmEnv_def)
  have dist: "distinct exampleTree"
    by (simp add: exampleTree_def node_def)
  from checkForFileDownloads_partition [OF u s d, of exampleTree]
  obtain r w' where r: "checkForFileDownloads (calmEnv (day 2024 5 10) 0 (\<lambda>d. Inr ())) exampleTree
             (signedIn (userWith 100 50)) = (Fulfilled r, w')"
     and dl: "objectsDownloaded r = downloads (sortFiles ?st 0 exampleTree)"
     and p: "mset (objectsDownloaded r) + mset (objectsUnchanged r) + mset (tooLarge r)
         + mset (quotaExceeded r) = mset (filter isFile exampleTree)"
     and dj: "distinct exampleTree \<longrightarrow>
          set (objectsDownloaded r) \<inter> set (objectsUnchanged r) = {}
        \<and> set (objectsDownloaded r) \<inter> set (tooLarge r) = {}
        \<and> set (objectsDownloaded r) \<inter> set (quotaExceeded r) = {}
        \<and> set (objectsUnchanged r) \<inter> set (tooLarge r) = {}
        \<and> set (objectsUnchanged r) \<inter> set (quotaExceeded r) = {}
        \<and> set (tooLarge r) \<inter> set (quotaExceeded r) = {}"
     and c: "\<forall>k. 0 < k \<and> k \<le> length (objectsDownloaded r) \<longrightarrow>
          0 + sum_list (map bytes (take k (objectsDownloaded r))) \<le> quotaSize ?st * 1000 * 1000"
    by (elim exE conjE)
  have ids: "map objId (objectsDownloaded r) = [2, 3]"
    unfolding dl by (simp only: checkForFileDownloads_example1)
  then have "length (map objId (objectsDownloaded r)) = 2" by simp
  then have len: "length (objectsDownloaded r) = 2" by simp
  have cum: "0 + sum_list (map bytes (take 2 (objectsDownloaded r))) \<le> 100 * 1000 * 1000"
    using c [rule_format, of 2] len by simp
  have dis: "set (objectsDownloaded r) \<inter> set (tooLarge r) = {}"
    using dj dist by simp
  show ?thesis
    using r p dis ids cum by (intro exI conjI)
qed

lemma sortFile_keeps:
  "set (downloads c) \<subseteq> set (downloads (sortFile a l c f))
   \<and> set (filesTooBig c) \<subseteq> set (filesTooBig (sortFile a l c f))
   \<and> set (noMoreSpace c) \<subseteq> set (noMoreSpace (sortFile a l c f))
   \<and> set (filesAlreadySynced c) \<subseteq> set (filesAlreadySynced (sortFile a l c f))"
  by (auto simp add: sortFile_def split: option.splits)

lemma foldl_sortFile_keeps:
  "set (downloads c) \<subseteq> set (downloads (foldl (sortFile a l) c fs))
   \<and> set (filesTooBig c) \<subseteq> set (filesTooBig (foldl (sortFile a l) c fs))
   \<and> set (noMoreSpace c) \<subseteq> set (noMoreSpace (foldl (sortFile a l) c fs))
   \<and> set (filesAlreadySynced c) \<subseteq> set (filesAlreadySynced (foldl (sortFile a l) c fs))"
proof (induction fs arbitrary: c)
  case Nil
  show ?case by simp
next
  case (Cons f fs)
  show ?case
    using sortFile_keeps [of c a l f] Cons.IH [of "sortFile a l c f"] by auto
qed

lemma sortFiles_append:
  "isFile f \<Longrightarrow> sortFiles st space (pre @ f # post) =
     foldl (sortFile (quotaSize st * 1000 * 1000) (downloadSize st * 1000 * 1000))
       (sortFile (quotaSize st * 1000 * 1000) (downloadSize st * 1000 * 1000) (sortFiles st space pre) f)
       (filter isFile post)"
  by (simp add: sortFiles_def)

lemma categories_disjoint:
  assumes "distinct objs"
  shows "set (map fst (filesTooBig (sortFiles st space objs)))
           \<inter> set (map fst (noMoreSpace (sortFiles st space objs))) = {}"
proof -
  have "mset (downloads (sortFiles st space objs)) + mset (map fst (filesTooBig (sortFiles st space objs)))
     + mset (map fst (noMoreSpace (sortFiles st space objs))) + mset (filesAlreadySynced (sortFiles st space objs))
     = mset (filter isFile objs)"
    using classified_sortFiles [of st space objs] by (simp only: classified_def)
  moreover have "distinct (filter isFile objs)" using assms by simp
  ultimately show ?thesis
    using disjoint_of_distinct by blast
qed

text \<open>
  Claim C2, as the code has it. The quota is tested first. A file that needs a download and
  would take the used space beyond the quota is left out for the quota, whatever the limit
  for one file says, and is then not among the files that are too large (the input having
  no repetition); a file is left out as too large only if it fits the quota at its turn; a
  file that passes both tests is scheduled. The used space at its turn is that of the files
  before it.
\<close>

theorem quota_checked_before_file_limit:
  assumes "isFile f" and "needsDownload f" and "parseInt (fileSize f) = Some n"
  shows "(\<not> currentlyUsedSpace (sortFiles st space pre) + n \<le> quotaSize st * 1000 * 1000 \<longrightarrow>
            (f, QuotaExceeded) \<in> set (noMoreSpace (sortFiles st space (pre @ f # post)))
          \<and> (distinct (pre @ f # post) \<longrightarrow>
               f \<notin> set (map fst (filesTooBig (sortFiles st space (pre @ f # post))))))
       \<and> (currentlyUsedSpace (sortFiles st space pre) + n \<le> quotaSize st * 1000 * 1000
          \<and> \<not> n \<le> downloadSize st * 1000 * 1000 \<longrightarrow>
            (f, FileTooBig) \<in> set (filesTooBig (sortFiles st space (pre @ f # post))))
       \<and> (currentlyUsedSpace (sortFiles st space pre) + n \<le> quotaSize st * 1000 * 1000
          \<and> n \<le> downloadSize st * 1000 * 1000 \<longrightarrow>
            f \<in> set (downloads (sortFiles st space (pre @ f # post))))"
proof -
  let ?a = "quotaSize st * 1000 * 1000" and ?l = "downloadSize st * 1000 * 1000"
  let ?c = "sortFiles st space pre"
  let ?r = "sortFiles st space (pre @ f # post)"
  have app: "?r = foldl (sortFile ?a ?l) (sortFile ?a ?l ?c f) (filter isFile post)"
    using assms(1) by (rule sortFiles_append)
  have keep: "set (downloads (sortFile ?a ?l ?c f)) \<subseteq> set (downloads ?r)
      \<and> set (filesTooBig (sortFile ?a ?l ?c f)) \<subseteq> set (filesTooBig ?r)
      \<and> set (noMoreSpace (sortFile ?a ?l ?c f)) \<subseteq> set (noMoreSpace ?r)"
    unfolding app using foldl_sortFile_keeps [of "sortFile ?a ?l ?c f" ?a ?l "filter isFile post"] by simp
  have q: "(f, QuotaExceeded) \<in> set (noMoreSpace ?r)" if "\<not> currentlyUsedSpace ?c + n \<le> ?a"
  proof -
    have "(f, QuotaExceeded) \<in> set (noMoreSpace (sortFile ?a ?l ?c f))"
      using assms that by (simp add: sortFile_def)
    with keep show ?thesis by blast
  qed
  have nq: "f \<notin> set (map fst (filesTooBig ?r))"
    if "\<not> currentlyUsedSpace ?c + n \<le> ?a" "distinct (pre @ f # post)"
  proof -
    have "f \<in> set (map fst (noMoreSpace ?r))" using q [OF that(1)] by force
    with categories_disjoint [OF that(2), of st space] show ?thesis by blast
  qed
  have t: "(f, FileTooBig) \<in> set (filesTooBig ?r)"
    if "currentlyUsedSpace ?c + n \<le> ?a \<and> \<not> n \<le> ?l"
  proof -
    have "(f, FileTooBig) \<in> set (filesTooBig (sortFile ?a ?l ?c f))"
      using assms that by (simp add: sortFile_def)
    with keep show ?thesis by blast
  qed
  have d: "f \<in> set (downloads ?r)" if "currentlyUsedSpace ?c + n \<le> ?a \<and> n \<le> ?l"
  proof -
    have "f \<in> set (downloads (sortFile ?a ?l ?c f))"
      using assms that by (simp add: sortFile_def)
    with keep show ?thesis by blast
  qed
  show ?thesis using q nq t d by blast
qed

text \<open>
  With 90 MB used of a quota of 100 MB and a limit of 50 MB for one file, a file of 60 MB
  exceeds the limit for one file and yet is left out for the quota, not as too large.
\<close>

theorem file_limit_first_counterexample:
  "isFile bigFile \<and> needsDownload bigFile \<and> parseInt (fileSize bigFile) = Some 60000000
   \<and> \<not> (60000000 :: int) \<le> downloadSize \<lparr>quotaSize = 100, downloadSize = 50\<rparr> * 1000 * 1000
   \<and> filesTooBig (sortFiles \<lparr>quotaSize = 100, downloadSize = 50\<rparr> 90000000 [bigFile]) = []
   \<and> noMoreSpace (sortFiles \<lparr>quotaSize = 100, downloadSize = 50\<rparr> 90000000 [bigFile])
       = [(bigFile, QuotaExceeded)]"
  by (simp add: bigFile_def node_def sortFiles_def isFile_def sortFile_def emptyCategories_def
        parseInt_examples)

theorem quota_checked_before_file_limit_witness:
  "(bigFile, QuotaExceeded) \<in> set (noMoreSpace (sortFiles \<lparr>quotaSize = 100, downloadSize = 50\<rparr> 90000000 ([] @ bigFile # [])))
   \<and> bigFile \<notin> set (map fst (filesTooBig (sortFiles \<lparr>quotaSize = 100, downloadSize = 50\<rparr> 90000000 ([] @ bigFile # []))))"
proof -
  have f: "isFile bigFile" and n: "needsDownload bigFile"
    by (simp_all add: bigFile_def node_def isFile_def)
  have p: "parseInt (fileSize bigFile) = Some 60000000"
    by (simp add: bigFile_def node_def parseInt_examples)
  have over: "\<not> currentlyUsedSpace (sortFiles \<lparr>quotaSize = 100, downloadSize = 50\<rparr> 90000000 []) + 60000000
                 \<le> quotaSize \<lparr>quotaSize = 100, downloadSize = 50\<rparr> * 1000 * 1000"
    by (simp add: sortFiles_def emptyCategories_def)
  have dist: "distinct ([] @ bigFile # [])" by simp
  show ?thesis
    using quota_checked_before_file_limit [OF f n p, of "\<lparr>quotaSize = 100, downloadSize = 50\<rparr>" 90000000 "[]" "[]"]
      over dist by blast
qed

section \<open>The session ledger: unfinished sessions and the label of the last synchronisation\<close>

lemma showNat_examples:
  "showNat 30 = ''30''" "showNat 4 = ''4''" "showInt 2024 = ''2024''" "showNat 1 = ''1''"
  "showNat 9 = ''9''" "showNat 5 = ''5''" "showNat 10 = ''10''" "showNat (Suc 0) = ''1''"
  by code_simp+

text \<open>
  Claim C10. Without a user, \<^verbatim>\<open>hasUnfinishedSync\<close> is rejected with the message
  \<^verbatim>\<open>No user given.\<close> and leaves the service as it was: the database is not accessed.
  With a user, when the database answers, it resolves with whether the table holds a row of
  that user with the flag set; it resolves with true exactly when the database answers and
  such a row exists.
\<close>

theorem hasUnfinishedSync_spec:
  "hasUnfinishedSync en None w = (Rejected (Reason ''No user given.''), w)
   \<and> (dbOutcome en (dbCalls w) = QueryOk \<longrightarrow>
        fst (hasUnfinishedSync en (Some u) w)
          = Fulfilled (\<exists>r \<in> set (synchronization w). userId r = id_user u \<and> recursiveSyncRunning_row r))
   \<and> (fst (hasUnfinishedSync en (Some u) w) = Fulfilled True \<longleftrightarrow>
        dbOutcome en (dbCalls w) = QueryOk
        \<and> (\<exists>r \<in> set (synchronization w). userId r = id_user u \<and> recursiveSyncRunning_row r))"
proof -
  have len: "filter (\<lambda>r. recursiveSyncRunning_row r \<and> userId r = id_user u) rows \<noteq> []
      \<longleftrightarrow> (\<exists>r \<in> set rows. userId r = id_user u \<and> recursiveSyncRunning_row r)"
    for rows :: "SyncRow list"
    by (auto simp add: filter_empty_conv)
  show ?thesis
    by (cases "dbOutcome en (dbCalls w)") (simp_all add: hasUnfinishedSync_def dbAccess_def len)
qed

theorem hasUnfinishedSync_spec_witness:
  "fst (hasUnfinishedSync (calmEnv (day 2024 5 10) 0 (\<lambda>d. Inr ())) (Some (userWith 100 50))
          (ledger [sessionRow 7 None True])) = Fulfilled True
   \<and> fst (hasUnfinishedSync (calmEnv (day 2024 5 10) 0 (\<lambda>d. Inr ())) (Some (userWith 100 50))
          (ledger [sessionRow 8 None True, sessionRow 7 (Some (day 2024 5 9)) False])) = Fulfilled False"
proof -
  have ok: "dbOutcome (calmEnv (day 2024 5 10) 0 (\<lambda>d. Inr ())) (dbCalls (ledger rows)) = QueryOk" for rows
    by (simp add: calmEnv_def)
  show ?thesis
    using hasUnfinishedSync_spec [of "calmEnv (day 2024 5 10) 0 (\<lambda>d. Inr ())" "ledger [sessionRow 7 None True]" "userWith 100 50"]
      hasUnfinishedSync_spec [of "calmEnv (day 2024 5 10) 0 (\<lambda>d. Inr ())" "ledger [sessionRow 8 None True, sessionRow 7 (Some (day 2024 5 9)) False]" "userWith 100 50"]
      ok
    by (simp add: ledger_def sessionRow_def userWith_def)
qed

text \<open>
  The label within one month and across months, and the row that the query keeps: an end
  date of the user that no other end date of the user is later than.
\<close>

lemma lastSyncLabel_today:
  assumes "instant en ''today'' \<noteq> []" and "lastEnd = now en"
  shows "lastSyncLabel en lastEnd = instant en ''today''"
  using assms by (simp add: lastSyncLabel_def)

lemma lastSyncLabel_yesterday_same_month:
  assumes "instant en ''yesterday'' \<noteq> []"
    and "getMonth (now en) = getMonth lastEnd" and "getFullYear (now en) = getFullYear lastEnd"
    and "getDate (now en) = Suc (getDate lastEnd)"
  shows "lastSyncLabel en lastEnd = instant en ''yesterday''"
  using assms by (simp add: lastSyncLabel_def)

lemma lastSyncLabel_other_month:
  assumes "getMonth (now en) \<noteq> getMonth lastEnd \<or> getFullYear (now en) \<noteq> getFullYear lastEnd"
  shows "lastSyncLabel en lastEnd =
     showNat (getDate lastEnd) @ ''.'' @ showNat (getMonth lastEnd + 1) @ ''.''
       @ showInt (getFullYear lastEnd)"
  using assms by (auto simp add: lastSyncLabel_def)

lemma dateLess_asym: "dateLess a b \<Longrightarrow> \<not> dateLess b a"
  unfolding dateLess_def by linarith

lemma dateLess_irrefl: "\<not> dateLess a a"
  unfolding dateLess_def by simp

lemma latest_Some: "latest ds = Some m \<Longrightarrow> m \<in> set ds \<and> (\<forall>d \<in> set ds. \<not> dateLess m d)"
proof (induction ds arbitrary: m)
  case Nil
  then show ?case by simp
next
  case (Cons d ds)
  show ?case
  proof (cases "latest ds")
    case None
    then have "ds = []" by (cases ds) (auto split: option.splits if_splits)
    with Cons.prems show ?thesis by (simp add: dateLess_irrefl)
  next
    case (Some m')
    from Cons.IH [OF Some] have ih: "m' \<in> set ds" "\<forall>x \<in> set ds. \<not> dateLess m' x" by simp_all
    show ?thesis
    proof (cases "dateLess d m'")
      case True
      with Some Cons.prems have "m = m'" by simp
      with ih dateLess_asym [OF True] show ?thesis by simp
    next
      case False
      with Some Cons.prems have "m = d" by simp
      have "\<not> dateLess d x" if "x \<in> set ds" for x
      proof
        assume dx: "dateLess d x"
        have nx: "\<not> dateLess m' x" using ih(2) that by simp
        show False using dx nx False unfolding dateLess_def by linarith
      qed
      with \<open>m = d\<close> show ?thesis by (simp add: dateLess_irrefl)
    qed
  qed
qed

text \<open>
  Claim C6 at the first day of a month. On 1 May 2024, a last synchronisation that ended on
  30 April 2024, the day before, is labelled with its date and not with the translation of
  \<^verbatim>\<open>yesterday\<close>: the day of the month is compared only when month and year agree.
\<close>

theorem updateLastSync_month_boundary:
  "lastSyncLabel (calmEnv (day 2024 5 1) 0 (\<lambda>d. Inr ())) (day 2024 4 30) = ''30.4.2024''
   \<and> lastSyncString (snd (updateLastSync (calmEnv (day 2024 5 1) 0 (\<lambda>d. Inr ())) 7
        (ledger [sessionRow 7 (Some (day 2024 4 30)) False]))) = ''30.4.2024''
   \<and> instant (calmEnv (day 2024 5 1) 0 (\<lambda>d. Inr ())) ''yesterday'' = ''yesterday''"
  by (simp add: updateLastSync_def dbAccess_def ledger_def sessionRow_def lastSyncLabel_def
      calmEnv_def day_def showNat_examples)

lemma updateLastSync_examples:
  "lastSyncLabel (calmEnv (day 2024 5 10) 0 dl) (day 2024 5 10) = ''today''"
  "lastSyncLabel (calmEnv (day 2024 5 10) 0 dl) (day 2024 5 9) = ''yesterday''"
  "lastSyncLabel (calmEnv (day 2024 5 10) 0 dl) (day 2024 4 1) = ''1.4.2024''"
  by (simp_all add: lastSyncLabel_def calmEnv_def day_def showNat_examples)

section \<open>\<^verbatim>\<open>downloadContainerContent\<close>: failed downloads do not reject the container\<close>

lemma executeFileDownloads_settled: "Pending \<notin> set (executeFileDownloads en ds)"
  by (auto simp add: executeFileDownloads_def split: sum.splits)

lemma awaitFileDownloads_fulfilled:
  assumes "fileDownloads r = executeFileDownloads en ds"
  shows "awaitFileDownloads c r w =
     (Fulfilled (),
      if firstRejected (fileDownloads r) = None then w
      else w\<lparr>warnings := warnings w @
            [''Encountered some problem in method 'downloadContainerContent' with container ''
               @ title c]\<rparr>)"
  using executeFileDownloads_settled [of en ds] assms
  by (simp add: awaitFileDownloads_def catchP_def promiseAll_def split: option.splits)

lemma checkForFileDownloads_tasks:
  "checkForFileDownloads en objs w = (Fulfilled r, w1) \<Longrightarrow>
     fileDownloads r = executeFileDownloads en (objectsDownloaded r)"
  by (auto simp add: checkForFileDownloads_def Let_def split: option.splits sum.splits)

lemma downloadContainerContent_unfolded:
  "downloadContainerContent en c w =
     (case getObjectData en c True of
        Inl e \<Rightarrow> (Rejected e, w)
      | Inr found \<Rightarrow>
          (case checkForFileDownloads en (found @ [c]) w of
             (Fulfilled r, w1) \<Rightarrow>
               (case firstFailure (map (\<lambda>it. load en (objId it)) (filter (isLearnplace en) (found @ [c]))) of
                  Some e \<Rightarrow> (Rejected e, snd (awaitFileDownloads c r w1))
                | None \<Rightarrow> (Fulfilled r, snd (awaitFileDownloads c r w1)))
           | (Rejected e, w1) \<Rightarrow> (Rejected e, w1)
           | (Pending, w1) \<Rightarrow> (Pending, w1)))"
proof (cases "getObjectData en c True")
  case (Inl e)
  then show ?thesis by (simp add: downloadContainerContent_def)
next
  case (Inr found)
  obtain p w1 where chk: "checkForFileDownloads en (found @ [c]) w = (p, w1)"
    by (cases "checkForFileDownloads en (found @ [c]) w")
  show ?thesis
  proof (cases p)
    case (Fulfilled r)
    have "fileDownloads r = executeFileDownloads en (objectsDownloaded r)"
      using chk Fulfilled by (simp add: checkForFileDownloads_tasks)
    then have "fst (awaitFileDownloads c r w1) = Fulfilled ()"
      by (simp add: awaitFileDownloads_fulfilled)
    then obtain w2 where aw: "awaitFileDownloads c r w1 = (Fulfilled (), w2)"
      by (cases "awaitFileDownloads c r w1") simp
    show ?thesis
      using Inr chk Fulfilled aw
      by (simp add: downloadContainerContent_def thenP_def downloadLearnplaces_def resolve_def
          split: option.splits)
  next
    case (Rejected e)
    with Inr chk show ?thesis by (simp add: downloadContainerContent_def thenP_def)
  next
    case Pending
    with Inr chk show ?thesis by (simp add: downloadContainerContent_def thenP_def)
  qed
qed

lemma checkForFileDownloads_download:
  "withoutTasks (fst (checkForFileDownloads (en\<lparr>download := dl\<rparr>) objs w))
     = withoutTasks (fst (checkForFileDownloads en objs w))
   \<and> dispatched (snd (checkForFileDownloads (en\<lparr>download := dl\<rparr>) objs w))
     = dispatched (snd (checkForFileDownloads en objs w))"
  by (simp add: checkForFileDownloads_def withoutTasks_def Let_def split: option.splits sum.splits)


lemma awaitFileDownloads_dispatched:
  "dispatched (snd (awaitFileDownloads c r w)) = dispatched w"
  by (simp add: awaitFileDownloads_def catchP_def split: promise.splits)

lemma downloadContainerContent_download:
  "withoutTasks (fst (downloadContainerContent (en\<lparr>download := dl\<rparr>) c w))
     = withoutTasks (fst (downloadContainerContent en c w))
   \<and> dispatched (snd (downloadContainerContent (en\<lparr>download := dl\<rparr>) c w))
     = dispatched (snd (downloadContainerContent en c w))"
proof (cases "getObjectData en c True")
  case (Inl e)
  then show ?thesis by (simp add: downloadContainerContent_unfolded withoutTasks_def)
next
  case (Inr found)
  let ?en = "en\<lparr>download := dl\<rparr>"
  obtain p w1 where a: "checkForFileDownloads en (found @ [c]) w = (p, w1)"
    by (cases "checkForFileDownloads en (found @ [c]) w")
  obtain p' w1' where b: "checkForFileDownloads ?en (found @ [c]) w = (p', w1')"
    by (cases "checkForFileDownloads ?en (found @ [c]) w")
  have same: "withoutTasks p' = withoutTasks p \<and> dispatched w1' = dispatched w1"
    using checkForFileDownloads_download [where en = en and dl = dl and objs = "found @ [c]" and w = w] a b by simp
  show ?thesis
  proof (cases p)
    case (Fulfilled r)
    with same obtain r' where r': "p' = Fulfilled r'" "r'\<lparr>fileDownloads := []\<rparr> = r\<lparr>fileDownloads := []\<rparr>"
      by (cases p') (simp_all add: withoutTasks_def)
    show ?thesis
      using Inr a b Fulfilled r' same
      by (simp add: downloadContainerContent_unfolded withoutTasks_def awaitFileDownloads_dispatched
          split: option.splits)
  next
    case (Rejected e)
    with same have "p' = Rejected e" by (cases p') (simp_all add: withoutTasks_def)
    with Inr a b Rejected same show ?thesis
      by (simp add: downloadContainerContent_unfolded)
  next
    case Pending
    with same have "p' = Pending" by (cases p') (simp_all add: withoutTasks_def)
    with Inr a b Pending same show ?thesis
      by (simp add: downloadContainerContent_unfolded)
  qed
qed

text \<open>
  Claim C9. Whatever the file service answers for each download, \<^verbatim>\<open>downloadContainerContent\<close>
  settles the same way with the same summary and hands the same downloads to the file
  service: the outcome of a download reaches only the list of the download promises. When
  the listing, the settings, the disk space and the learnplaces succeed, the container is
  fulfilled with its summary for any number of failed downloads, and every scheduled
  download was dispatched.
\<close>

theorem downloadContainerContent_tolerates_failures:
  "withoutTasks (fst (downloadContainerContent (en\<lparr>download := dl\<rparr>) c w))
     = withoutTasks (fst (downloadContainerContent en c w))
   \<and> dispatched (snd (downloadContainerContent (en\<lparr>download := dl\<rparr>) c w))
     = dispatched (snd (downloadContainerContent en c w))
   \<and> (getObjectData en c True = Inr found \<and> user w = Some u \<and> settings u = Inr st
        \<and> getTotalDiskSpace en = Inr space
        \<and> firstFailure (map (\<lambda>it. load en (objId it)) (filter (isLearnplace en) (found @ [c]))) = None
      \<longrightarrow> (\<exists>r. fst (downloadContainerContent (en\<lparr>download := dl\<rparr>) c w) = Fulfilled r
             \<and> objectsDownloaded r = downloads (sortFiles st space (found @ [c]))
             \<and> fileDownloads r = executeFileDownloads (en\<lparr>download := dl\<rparr>) (objectsDownloaded r)
             \<and> dispatched (snd (downloadContainerContent (en\<lparr>download := dl\<rparr>) c w))
                 = dispatched w @ objectsDownloaded r))"
proof -
  have ok: "\<exists>r. fst (downloadContainerContent (en\<lparr>download := dl\<rparr>) c w) = Fulfilled r
             \<and> objectsDownloaded r = downloads (sortFiles st space (found @ [c]))
             \<and> fileDownloads r = executeFileDownloads (en\<lparr>download := dl\<rparr>) (objectsDownloaded r)
             \<and> dispatched (snd (downloadContainerContent (en\<lparr>download := dl\<rparr>) c w))
                 = dispatched w @ objectsDownloaded r"
    if "getObjectData en c True = Inr found" "user w = Some u" "settings u = Inr st"
       "getTotalDiskSpace en = Inr space"
       "firstFailure (map (\<lambda>it. load en (objId it)) (filter (isLearnplace en) (found @ [c]))) = None"
    using that
    by (simp add: downloadContainerContent_unfolded checkForFileDownloads_def Let_def
        awaitFileDownloads_dispatched)
  note same = downloadContainerContent_download [where en = en and dl = dl and c = c and w = w]
  show ?thesis
  proof (intro conjI impI)
    show "withoutTasks (fst (downloadContainerContent (en\<lparr>download := dl\<rparr>) c w))
        = withoutTasks (fst (downloadContainerContent en c w))"
      using same by (rule conjunct1)
    show "dispatched (snd (downloadContainerContent (en\<lparr>download := dl\<rparr>) c w))
        = dispatched (snd (downloadContainerContent en c w))"
      using same by (rule conjunct2)
  next
    assume "getObjectData en c True = Inr found \<and> user w = Some u \<and> settings u = Inr st
        \<and> getTotalDiskSpace en = Inr space
        \<and> firstFailure (map (\<lambda>it. load en (objId it)) (filter (isLearnplace en) (found @ [c]))) = None"
    then show "\<exists>r. fst (downloadContainerContent (en\<lparr>download := dl\<rparr>) c w) = Fulfilled r
             \<and> objectsDownloaded r = downloads (sortFiles st space (found @ [c]))
             \<and> fileDownloads r = executeFileDownloads (en\<lparr>download := dl\<rparr>) (objectsDownloaded r)
             \<and> dispatched (snd (downloadContainerContent (en\<lparr>download := dl\<rparr>) c w))
                 = dispatched w @ objectsDownloaded r"
      by (elim conjE) (rule ok)
  qed
qed

theorem downloadContainerContent_tolerates_failures_witness:
  "\<exists>r. fst (downloadContainerContent ((treeEnv exampleTree (\<lambda>d. Inr ()))\<lparr>download := (\<lambda>d. Inl (Failure 1))\<rparr>)
              course (signedIn (userWith 100 50))) = Fulfilled r
       \<and> map objId (objectsDownloaded r) = [2, 3]
       \<and> fileDownloads r = [Rejected (Failure 1), Rejected (Failure 1)]"
proof -
  let ?en = "treeEnv exampleTree (\<lambda>d. Inr ())"
  let ?st = "\<lparr>quotaSize = 100, downloadSize = 50\<rparr>"
  have g: "getObjectData ?en course True = Inr exampleTree"
    and u: "user (signedIn (userWith 100 50)) = Some (userWith 100 50)"
    and s: "settings (userWith 100 50) = Inr ?st"
    and d: "getTotalDiskSpace ?en = Inr 0"
    by (simp_all add: treeEnv_def calmEnv_def signedIn_def userWith_def)
  have l: "firstFailure (map (\<lambda>it. load ?en (objId it)) (filter (isLearnplace ?en) (exampleTree @ [course]))) = None"
    by (simp add: treeEnv_def calmEnv_def exampleTree_def course_def node_def)
  have same: "sortFiles ?st 0 (exampleTree @ [course]) = sortFiles ?st 0 exampleTree"
    by (simp add: sortFiles_def course_def node_def isFile_def)
  have hyps: "getObjectData ?en course True = Inr exampleTree
      \<and> user (signedIn (userWith 100 50)) = Some (userWith 100 50)
      \<and> settings (userWith 100 50) = Inr ?st \<and> getTotalDiskSpace ?en = Inr 0
      \<and> firstFailure (map (\<lambda>it. load ?en (objId it)) (filter (isLearnplace ?en) (exampleTree @ [course]))) = None"
    using g u s d l by (intro conjI)
  note t = downloadContainerContent_tolerates_failures
         [where en = ?en and dl = "\<lambda>d. Inl (Failure 1)" and c = course
            and w = "signedIn (userWith 100 50)" and found = exampleTree
            and u = "userWith 100 50" and st = ?st and space = 0]
  from t [THEN conjunct2, THEN conjunct2, THEN mp, OF hyps]
  obtain r where r: "fst (downloadContainerContent (?en\<lparr>download := (\<lambda>d. Inl (Failure 1))\<rparr>)
              course (signedIn (userWith 100 50))) = Fulfilled r"
    and dl: "objectsDownloaded r = downloads (sortFiles ?st 0 (exampleTree @ [course]))"
    and fd: "fileDownloads r = executeFileDownloads (?en\<lparr>download := (\<lambda>d. Inl (Failure 1))\<rparr>) (objectsDownloaded r)"
    by (elim exE conjE)
  have ids: "map objId (objectsDownloaded r) = [2, 3]"
    unfolding dl same by (simp only: checkForFileDownloads_example1)
  then have "length (map objId (objectsDownloaded r)) = 2" by simp
  then have "length (objectsDownloaded r) = 2" by simp
  then obtain a b where "objectsDownloaded r = [a, b]"
    by (cases "objectsDownloaded r"; cases "tl (objectsDownloaded r)") auto
  then have "fileDownloads r = [Rejected (Failure 1), Rejected (Failure 1)]"
    using fd by (simp add: executeFileDownloads_def)
  with r ids show ?thesis by (intro exI conjI)
qed

section \<open>\<^verbatim>\<open>liveLoad\<close>: the flags it writes and the event it publishes\<close>

lemma updateLastSync_frame:
  "state (snd (updateLastSync en u w)) = state w \<and> published (snd (updateLastSync en u w)) = published w"
  by (simp add: updateLastSync_def dbAccess_def split: dbOutcome.splits option.splits)

lemma syncEnded_frame:
  "state (snd (syncEnded en w)) = (state w)\<lparr>recursiveSyncRunning := False\<rparr>
   \<and> published (snd (syncEnded en w)) = published w"
  using updateLastSync_frame
  by (simp add: syncEnded_def dbAccess_def Let_def split: dbOutcome.splits option.splits)

lemma syncStarted_frame:
  "state (snd (syncStarted en w)) = (state w)\<lparr>recursiveSyncRunning := True\<rparr>
   \<and> published (snd (syncStarted en w)) = published w"
  by (simp add: syncStarted_def dbAccess_def Let_def split: dbOutcome.splits option.splits)

lemma syncStarted_pending:
  "user w = Some u \<Longrightarrow> (fst (syncStarted en w) = Pending) = (dbOutcome en (dbCalls w) = InstanceFails)"
  by (simp add: syncStarted_def dbAccess_def Let_def split: dbOutcome.splits)

lemma syncEnded_settles: "fst (syncEnded en w) \<noteq> Pending"
  by (simp add: syncEnded_def updateLastSync_def dbAccess_def Let_def split: dbOutcome.splits option.splits)

lemma executeLiveLoad_frame:
  "state (snd (executeLiveLoad en parent w)) = (state w)\<lparr>recursiveSyncRunning := False\<rparr>
   \<and> published (snd (executeLiveLoad en parent w)) = published w
   \<and> fst (executeLiveLoad en parent w) \<noteq> Pending"
proof -
  obtain p w1 where a: "syncEnded en w = (p, w1)" by (cases "syncEnded en w")
  have f1: "state w1 = (state w)\<lparr>recursiveSyncRunning := False\<rparr> \<and> published w1 = published w"
    and s1: "p \<noteq> Pending"
    using syncEnded_frame [of en w] syncEnded_settles [of en w] a by simp_all
  obtain q w2 where b: "syncEnded en w1 = (q, w2)" by (cases "syncEnded en w1")
  have f2: "state w2 = (state w)\<lparr>recursiveSyncRunning := False\<rparr> \<and> published w2 = published w"
    and s2: "q \<noteq> Pending"
    using syncEnded_frame [of en w1] syncEnded_settles [of en w1] b f1 by simp_all
  show ?thesis
    using a b f1 f2 s1 s2
    by (cases p; cases q)
       (simp_all add: executeLiveLoad_def thenP_def reject_def resolve_def Let_def split: sum.splits)
qed


lemma syncStarted_outcome:
  assumes "user w = Some u"
  shows "fst (syncStarted en w) =
     (case dbOutcome en (dbCalls w) of
        QueryOk \<Rightarrow> Fulfilled () | QueryFails \<Rightarrow> Rejected Undefined | InstanceFails \<Rightarrow> Pending)"
  using assms by (simp add: syncStarted_def dbAccess_def Let_def split: dbOutcome.splits)

lemma liveLoad_attempt_frame:
  assumes "user w = Some u"
  shows "published (snd (liveLoad_attempt en obj w)) = published w
     \<and> state (snd (liveLoad_attempt en obj w))
         = (state w)\<lparr>recursiveSyncRunning := (dbOutcome en (dbCalls w) \<noteq> QueryOk)\<rparr>
     \<and> (fst (liveLoad_attempt en obj w) = Pending) = (dbOutcome en (dbCalls w) = InstanceFails)"
proof -
  obtain p w1 where a: "syncStarted en w = (p, w1)" by (cases "syncStarted en w")
  have f1: "state w1 = (state w)\<lparr>recursiveSyncRunning := True\<rparr> \<and> published w1 = published w"
    using syncStarted_frame [of en w] a by simp
  have p1: "p = (case dbOutcome en (dbCalls w) of
        QueryOk \<Rightarrow> Fulfilled () | QueryFails \<Rightarrow> Rejected Undefined | InstanceFails \<Rightarrow> Pending)"
    using syncStarted_outcome [OF assms, of en] a by simp
  show ?thesis
  proof (cases "dbOutcome en (dbCalls w)")
    case QueryOk
    with a f1 p1 show ?thesis
      using executeLiveLoad_frame [of en obj w1]
      by (simp add: liveLoad_attempt_def thenP_def)
  next
    case QueryFails
    with a f1 p1 show ?thesis
      by (simp add: liveLoad_attempt_def thenP_def)
  next
    case InstanceFails
    with a f1 p1 show ?thesis
      by (simp add: liveLoad_attempt_def thenP_def)
  qed
qed

lemma liveLoad_unfolded:
  "liveLoad en obj w =
     (case currentUser en of
        Inl e \<Rightarrow> (Rejected e, w\<lparr>state := (state w)\<lparr>liveLoading := True\<rparr>\<rparr>)
      | Inr u \<Rightarrow>
          (case liveLoad_attempt en obj (w\<lparr>state := (state w)\<lparr>liveLoading := True\<rparr>, user := Some u\<rparr>) of
             (Fulfilled v, wc) \<Rightarrow> (Fulfilled v, wc\<lparr>state := (state wc)\<lparr>liveLoading := False\<rparr>\<rparr>)
           | (Rejected e, wc) \<Rightarrow>
               (case syncEnded en wc of
                  (Fulfilled d, we) \<Rightarrow> (Rejected e, publish ''sync:complete'' we)
                | (Rejected e', we) \<Rightarrow> (Rejected e', we)
                | (Pending, we) \<Rightarrow> (Pending, we))
           | (Pending, wc) \<Rightarrow> (Pending, wc)))"
  by (simp add: liveLoad_def liveLoad_attempt_def loadCurrentUser_def thenP_def catchP_def
      split: sum.splits prod.splits promise.splits)

text \<open>
  Claim C7, as the code has it. \<^verbatim>\<open>liveLoad\<close> never writes \<^verbatim>\<open>loadingOfflineContent\<close>.
  It does write \<^verbatim>\<open>recursiveSyncRunning\<close>, through \<^verbatim>\<open>syncStarted\<close> and \<^verbatim>\<open>syncEnded\<close>:
  the flag keeps its value only when loading the user fails; otherwise it is false after
  every call that settles, fulfilled or rejected, whatever it was before, and it stays true
  in the one case where the call never settles (the database cannot be opened when the
  session is to be recorded).
\<close>

theorem liveLoad_flags:
  "loadingOfflineContent (state (snd (liveLoad en obj w))) = loadingOfflineContent (state w)
   \<and> recursiveSyncRunning (state (snd (liveLoad en obj w))) =
       (case currentUser en of
          Inl e \<Rightarrow> recursiveSyncRunning (state w)
        | Inr u \<Rightarrow> dbOutcome en (dbCalls w) = InstanceFails)
   \<and> ((fst (liveLoad en obj w) = Pending) =
       (case currentUser en of Inl e \<Rightarrow> False | Inr u \<Rightarrow> dbOutcome en (dbCalls w) = InstanceFails))"
proof (cases "currentUser en")
  case (Inl e)
  then show ?thesis by (simp add: liveLoad_unfolded)
next
  case (Inr u)
  let ?w1 = "w\<lparr>state := (state w)\<lparr>liveLoading := True\<rparr>, user := Some u\<rparr>"
  obtain pc wc where a: "liveLoad_attempt en obj ?w1 = (pc, wc)"
    by (cases "liveLoad_attempt en obj ?w1")
  have u: "user ?w1 = Some u" by simp
  have fr: "state wc = (state ?w1)\<lparr>recursiveSyncRunning := (dbOutcome en (dbCalls w) \<noteq> QueryOk)\<rparr>"
    and pe: "(pc = Pending) = (dbOutcome en (dbCalls w) = InstanceFails)"
    using liveLoad_attempt_frame [OF u, of en obj] a by simp_all
  obtain pe' we where b: "syncEnded en wc = (pe', we)" by (cases "syncEnded en wc")
  have fe: "state we = (state wc)\<lparr>recursiveSyncRunning := False\<rparr>" and se: "pe' \<noteq> Pending"
    using syncEnded_frame [of en wc] syncEnded_settles [of en wc] b by simp_all
  show ?thesis
  proof (cases pc)
    case (Fulfilled v)
    with pe have "dbOutcome en (dbCalls w) \<noteq> InstanceFails" by simp
    moreover have "dbOutcome en (dbCalls w) = QueryOk"
      using liveLoad_attempt_frame [OF u, of en obj] a Fulfilled
        syncStarted_outcome [OF u, of en]
      by (cases "dbOutcome en (dbCalls w)")
         (simp_all add: liveLoad_attempt_def thenP_def split: prod.splits promise.splits)
    ultimately show ?thesis
      using Inr a Fulfilled fr by (simp add: liveLoad_unfolded)
  next
    case (Rejected e)
    with pe have "dbOutcome en (dbCalls w) \<noteq> InstanceFails" by simp
    then show ?thesis
      using Inr a b Rejected fr fe se by (cases pe') (simp_all add: liveLoad_unfolded publish_def)
  next
    case Pending
    with pe have i: "dbOutcome en (dbCalls w) = InstanceFails" by simp
    then show ?thesis
      using Inr a Pending fr by (simp add: liveLoad_unfolded)
  qed
qed

text \<open>
  With the flag set by a session that is open, a \<^verbatim>\<open>liveLoad\<close> that succeeds leaves it
  cleared: the flag is not the same before and after the call.
\<close>

theorem liveLoad_flags_counterexample:
  "recursiveSyncRunning (state openSession)
   \<and> fst (liveLoad (calmEnv (day 2024 5 10) 0 (\<lambda>d. Inr ())) None openSession) = Fulfilled []
   \<and> \<not> recursiveSyncRunning (state (snd (liveLoad (calmEnv (day 2024 5 10) 0 (\<lambda>d. Inr ())) None openSession)))"
  by code_simp

theorem liveLoad_flags_witness:
  "loadingOfflineContent (state (snd (liveLoad (calmEnv (day 2024 5 10) 0 (\<lambda>d. Inr ())) None openSession)))
     = loadingOfflineContent (state openSession)
   \<and> recursiveSyncRunning (state (snd (liveLoad (calmEnv (day 2024 5 10) 0 (\<lambda>d. Inr ())) None openSession)))
     = False"
  using liveLoad_flags [of "calmEnv (day 2024 5 10) 0 (\<lambda>d. Inr ())" None openSession]
  by (simp add: calmEnv_def)

text \<open>
  Claim C8, as the code has it. \<^verbatim>\<open>liveLoad\<close> publishes \<^verbatim>\<open>sync:complete\<close> once, and only
  when the attempt (opening the session, then loading) is rejected and the
  \<^verbatim>\<open>syncEnded\<close> that follows is fulfilled. It publishes nothing when it is fulfilled, when
  loading the user fails, when closing the session fails, or when it never settles.
\<close>

theorem liveLoad_publishes:
  "published (snd (liveLoad en obj w)) = published w @
     (case currentUser en of
        Inl e \<Rightarrow> []
      | Inr u \<Rightarrow>
          (case liveLoad_attempt en obj (w\<lparr>state := (state w)\<lparr>liveLoading := True\<rparr>, user := Some u\<rparr>) of
             (Rejected e, wc) \<Rightarrow>
               (case fst (syncEnded en wc) of Fulfilled d \<Rightarrow> [''sync:complete''] | Rejected e' \<Rightarrow> [] | Pending \<Rightarrow> [])
           | (Fulfilled v, wc) \<Rightarrow> []
           | (Pending, wc) \<Rightarrow> []))
   \<and> (case fst (liveLoad en obj w) of
        Fulfilled v \<Rightarrow> published (snd (liveLoad en obj w)) = published w
      | Rejected e \<Rightarrow> True
      | Pending \<Rightarrow> published (snd (liveLoad en obj w)) = published w)"
proof (cases "currentUser en")
  case (Inl e)
  then show ?thesis by (simp add: liveLoad_unfolded)
next
  case (Inr u)
  let ?w1 = "w\<lparr>state := (state w)\<lparr>liveLoading := True\<rparr>, user := Some u\<rparr>"
  obtain pc wc where a: "liveLoad_attempt en obj ?w1 = (pc, wc)"
    by (cases "liveLoad_attempt en obj ?w1")
  have u: "user ?w1 = Some u" by simp
  have fr: "published wc = published w"
    using liveLoad_attempt_frame [OF u, of en obj] a by simp
  obtain pe' we where b: "syncEnded en wc = (pe', we)" by (cases "syncEnded en wc")
  have fe: "published we = published wc" and se: "pe' \<noteq> Pending"
    using syncEnded_frame [of en wc] syncEnded_settles [of en wc] b by simp_all
  show ?thesis
    using Inr a b fr fe se
    by (cases pc; cases pe') (simp_all add: liveLoad_unfolded publish_def)
qed

text \<open>A \<^verbatim>\<open>liveLoad\<close> in which nothing fails is fulfilled and has published no event.\<close>

theorem liveLoad_publishes_counterexample:
  "fst (liveLoad (calmEnv (day 2024 5 10) 0 (\<lambda>d. Inr ())) None initialService) = Fulfilled []
   \<and> published (snd (liveLoad (calmEnv (day 2024 5 10) 0 (\<lambda>d. Inr ())) None initialService)) = []"
  by code_simp

theorem liveLoad_publishes_witness:
  "published (snd (liveLoad brokenInsert None initialService)) = [''sync:complete'']
   \<and> fst (liveLoad brokenInsert None initialService) = Rejected Undefined"
proof -
  have "fst (liveLoad brokenInsert None initialService) = Rejected Undefined"
    by code_simp
  moreover have "published (snd (liveLoad brokenInsert None initialService)) = [''sync:complete'']"
  proof -
    have ev: "published initialService @
     (case currentUser brokenInsert of
        Inl e \<Rightarrow> []
      | Inr u \<Rightarrow>
          (case liveLoad_attempt brokenInsert None (initialService\<lparr>state := (state initialService)\<lparr>liveLoading := True\<rparr>, user := Some u\<rparr>) of
             (Rejected e, wc) \<Rightarrow>
               (case fst (syncEnded brokenInsert wc) of Fulfilled d \<Rightarrow> [''sync:complete''] | Rejected e' \<Rightarrow> [] | Pending \<Rightarrow> [])
           | (Fulfilled v, wc) \<Rightarrow> []
           | (Pending, wc) \<Rightarrow> [])) = [''sync:complete'']"
      by code_simp
    show ?thesis
      using liveLoad_publishes [of brokenInsert None initialService, THEN conjunct1] ev by simp
  qed
  ultimately show ?thesis by simp
qed

section \<open>\<^verbatim>\<open>loadOfflineObjectRecursive\<close>: which requests wait, and when the stack is popped\<close>

text \<open>
  Claim C3 at three requests in a row. \<^verbatim>\<open>loadOfflineObjectRecursive\<close> reads
  \<^verbatim>\<open>recursiveSyncRunning\<close> and never sets it, so a request that comes while another
  container is being downloaded is not made to wait: requested one after the other with no
  download settled in between, A, B and C are all begun at once, in that order, and the
  stack stays empty.
\<close>

theorem loadOfflineObjectRecursive_runs_side_by_side:
  "map objId (containers (run calm (signedIn (userWith 100 50))
      [Requested courseA, Requested courseB, Requested courseC])) = [1, 2, 3]
   \<and> recursiveSyncQueue (run calm (signedIn (userWith 100 50))
      [Requested courseA, Requested courseB, Requested courseC]) = []
   \<and> recursiveSyncRunning (state (run calm (signedIn (userWith 100 50))
      [Requested courseA])) = False"
  by code_simp

text \<open>
  The stack itself works as the claim says once requests are on it: B and C, requested
  while a session opened by \<^verbatim>\<open>syncStarted\<close> holds the flag, are begun last in first out by
  the downloads that are fulfilled after the session was closed.
\<close>

lemma loadOfflineObjectRecursive_stack_example:
  "map objId (containers (run calm (signedIn (userWith 100 50))
      [Requested courseA, SessionStarted, Requested courseB, Requested courseC, SessionEnded,
       DownloadFulfilled, DownloadFulfilled])) = [1, 3, 2]"
  by code_simp

lemma loadOfflineObjectRecursive_begin_state:
  "state (snd (loadOfflineObjectRecursive_begin obj w)) = state w"
  by (simp add: loadOfflineObjectRecursive_begin_def Let_def)

lemma loadOfflineObjectRecursive_then_state:
  "state (loadOfflineObjectRecursive_then w) = state w"
  by (simp add: loadOfflineObjectRecursive_then_def loadOfflineObjectRecursive_begin_state Let_def)

text \<open>As long as no session is opened, no request ever waits.\<close>

lemma run_never_queues:
  assumes "sessionFree evs" and "\<not> recursiveSyncRunning (state w)" and "recursiveSyncQueue w = []"
  shows "recursiveSyncQueue (run en w evs) = []
     \<and> containers (run en w evs) = containers w @ map (setIsFavorite 2) (requests evs)
     \<and> \<not> recursiveSyncRunning (state (run en w evs))"
  using assms
proof (induction evs arbitrary: w)
  case Nil
  then show ?case by (simp add: run_def)
next
  case (Cons ev evs)
  show ?case
  proof (cases ev)
    case (Requested obj)
    let ?w = "w\<lparr>containers := containers w @ [setIsFavorite 2 obj]\<rparr>"
    have s: "step en w ev = ?w"
      using Requested Cons.prems by (simp add: loadOfflineObjectRecursive_begin_def Let_def)
    have "sessionFree evs" using Cons.prems Requested by simp
    from Cons.IH [OF this, of ?w] Cons.prems show ?thesis
      using Requested s by (simp add: run_def)
  next
    case DownloadFulfilled
    have s: "step en w ev = w"
      using DownloadFulfilled Cons.prems by (simp add: loadOfflineObjectRecursive_then_def)
    have "sessionFree evs" using Cons.prems DownloadFulfilled by simp
    from Cons.IH [OF this, of w] Cons.prems show ?thesis
      using DownloadFulfilled s by (simp add: run_def)
  next
    case DownloadRejected
    have s: "step en w ev = w"
      using DownloadRejected by (simp add: loadOfflineObjectRecursive_catch_def)
    have "sessionFree evs" using Cons.prems DownloadRejected by simp
    from Cons.IH [OF this, of w] Cons.prems show ?thesis
      using DownloadRejected s by (simp add: run_def)
  next
    case SessionStarted
    with Cons.prems show ?thesis by simp
  next
    case SessionEnded
    with Cons.prems show ?thesis by simp
  qed
qed

lemma downloadContainerContent_coordinator:
  "recursiveSyncQueue (snd (downloadContainerContent en c w)) = recursiveSyncQueue w
   \<and> containers (snd (downloadContainerContent en c w)) = containers w
   \<and> state (snd (downloadContainerContent en c w)) = state w
   \<and> promises (snd (downloadContainerContent en c w)) = promises w"
  by (simp add: downloadContainerContent_def checkForFileDownloads_def awaitFileDownloads_def
      downloadLearnplaces_def thenP_def catchP_def resolve_def Let_def
      split: sum.splits option.splits promise.splits prod.splits)

text \<open>
  Claim C4, as the code has it. The handler for a rejected download changes nothing: no
  entry is popped. The handler for a fulfilled download pops the entry pushed last and calls
  \<^verbatim>\<open>loadOfflineObjectRecursive\<close> for its object, which begins the download if the flag is
  clear and pushes the object again if it is set. For a whole call: when it is rejected the
  stack is as before and no further download was begun; when it is fulfilled the top entry is
  gone and its download was begun right after.
\<close>

theorem queue_popped_on_success_only:
  "loadOfflineObjectRecursive_catch w = w
   \<and> (recursiveSyncQueue w = q @ [sync] \<and> \<not> recursiveSyncRunning (state w) \<longrightarrow>
        loadOfflineObjectRecursive_then w =
          w\<lparr>recursiveSyncQueue := q, containers := containers w @ [setIsFavorite 2 (object sync)]\<rparr>)
   \<and> (recursiveSyncQueue w = q @ [sync] \<and> recursiveSyncRunning (state w) \<longrightarrow>
        loadOfflineObjectRecursive_then w =
          w\<lparr>recursiveSyncQueue := q @ [\<lparr>object = setIsFavorite 2 (object sync), waiter = promises w\<rparr>],
            promises := promises w + 1\<rparr>)
   \<and> (recursiveSyncQueue w = [] \<longrightarrow> loadOfflineObjectRecursive_then w = w)
   \<and> (fst (loadOfflineObjectRecursive en obj w) = Rejected e \<longrightarrow>
        recursiveSyncQueue (snd (loadOfflineObjectRecursive en obj w)) = recursiveSyncQueue w
        \<and> containers (snd (loadOfflineObjectRecursive en obj w)) = containers w @ [setIsFavorite 2 obj])
   \<and> (fst (loadOfflineObjectRecursive en obj w) = Fulfilled r \<and> recursiveSyncQueue w = q @ [sync] \<longrightarrow>
        recursiveSyncQueue (snd (loadOfflineObjectRecursive en obj w)) = q
        \<and> containers (snd (loadOfflineObjectRecursive en obj w))
            = containers w @ [setIsFavorite 2 obj, setIsFavorite 2 (object sync)])"
proof -
  have c: "loadOfflineObjectRecursive_catch w = w"
    by (simp add: loadOfflineObjectRecursive_catch_def)
  have t1: "loadOfflineObjectRecursive_then v =
          v\<lparr>recursiveSyncQueue := q, containers := containers v @ [setIsFavorite 2 (object sync)]\<rparr>"
    if "recursiveSyncQueue v = q @ [sync]" "\<not> recursiveSyncRunning (state v)" for v
    using that by (simp add: loadOfflineObjectRecursive_then_def loadOfflineObjectRecursive_begin_def Let_def)
  have t2: "loadOfflineObjectRecursive_then w =
          w\<lparr>recursiveSyncQueue := q @ [\<lparr>object = setIsFavorite 2 (object sync), waiter = promises w\<rparr>],
            promises := promises w + 1\<rparr>"
    if "recursiveSyncQueue w = q @ [sync]" "recursiveSyncRunning (state w)"
    using that by (simp add: loadOfflineObjectRecursive_then_def loadOfflineObjectRecursive_begin_def Let_def)
  have t3: "loadOfflineObjectRecursive_then w = w" if "recursiveSyncQueue w = []"
    using that by (simp add: loadOfflineObjectRecursive_then_def)
  let ?w1 = "w\<lparr>containers := containers w @ [setIsFavorite 2 obj]\<rparr>"
  obtain p w2 where d: "downloadContainerContent en (setIsFavorite 2 obj) ?w1 = (p, w2)"
    by (cases "downloadContainerContent en (setIsFavorite 2 obj) ?w1")
  have fr: "recursiveSyncQueue w2 = recursiveSyncQueue w
      \<and> containers w2 = containers w @ [setIsFavorite 2 obj] \<and> state w2 = state w"
    using downloadContainerContent_coordinator [of en "setIsFavorite 2 obj" ?w1] d by simp
  have rej: "recursiveSyncQueue (snd (loadOfflineObjectRecursive en obj w)) = recursiveSyncQueue w
        \<and> containers (snd (loadOfflineObjectRecursive en obj w)) = containers w @ [setIsFavorite 2 obj]"
    if "fst (loadOfflineObjectRecursive en obj w) = Rejected e"
  proof (cases "recursiveSyncRunning (state w)")
    case True
    with that show ?thesis
      by (simp add: loadOfflineObjectRecursive_def loadOfflineObjectRecursive_begin_def Let_def)
  next
    case False
    with that d fr show ?thesis
      by (cases p)
         (simp_all add: loadOfflineObjectRecursive_def loadOfflineObjectRecursive_begin_def
            loadOfflineObjectRecursive_catch_def Let_def)
  qed
  have ful: "recursiveSyncQueue (snd (loadOfflineObjectRecursive en obj w)) = q
        \<and> containers (snd (loadOfflineObjectRecursive en obj w))
            = containers w @ [setIsFavorite 2 obj, setIsFavorite 2 (object sync)]"
    if "fst (loadOfflineObjectRecursive en obj w) = Fulfilled r" "recursiveSyncQueue w = q @ [sync]"
  proof (cases "recursiveSyncRunning (state w)")
    case True
    with that show ?thesis
      by (simp add: loadOfflineObjectRecursive_def loadOfflineObjectRecursive_begin_def Let_def)
  next
    case False
    have "loadOfflineObjectRecursive_then w2 =
          w2\<lparr>recursiveSyncQueue := q, containers := containers w2 @ [setIsFavorite 2 (object sync)]\<rparr>"
      using t1 [of w2] fr that(2) False by simp
    with False that d fr show ?thesis
      by (cases p)
         (simp_all add: loadOfflineObjectRecursive_def loadOfflineObjectRecursive_begin_def Let_def)
  qed
  show ?thesis
  proof (intro conjI impI)
    show "loadOfflineObjectRecursive_catch w = w" by (rule c)
  next
    assume "recursiveSyncQueue w = q @ [sync] \<and> \<not> recursiveSyncRunning (state w)"
    then show "loadOfflineObjectRecursive_then w =
          w\<lparr>recursiveSyncQueue := q, containers := containers w @ [setIsFavorite 2 (object sync)]\<rparr>"
      using t1 [of w] by simp
  next
    assume "recursiveSyncQueue w = q @ [sync] \<and> recursiveSyncRunning (state w)"
    then show "loadOfflineObjectRecursive_then w =
          w\<lparr>recursiveSyncQueue := q @ [\<lparr>object = setIsFavorite 2 (object sync), waiter = promises w\<rparr>],
            promises := promises w + 1\<rparr>"
      using t2 by simp
  next
    assume "recursiveSyncQueue w = []"
    then show "loadOfflineObjectRecursive_then w = w" by (rule t3)
  next
    assume r: "fst (loadOfflineObjectRecursive en obj w) = Rejected e"
    show "recursiveSyncQueue (snd (loadOfflineObjectRecursive en obj w)) = recursiveSyncQueue w"
      using rej [OF r] by (rule conjunct1)
    show "containers (snd (loadOfflineObjectRecursive en obj w)) = containers w @ [setIsFavorite 2 obj]"
      using rej [OF r] by (rule conjunct2)
  next
    assume f: "fst (loadOfflineObjectRecursive en obj w) = Fulfilled r \<and> recursiveSyncQueue w = q @ [sync]"
    show "recursiveSyncQueue (snd (loadOfflineObjectRecursive en obj w)) = q"
      using ful f by simp
    show "containers (snd (loadOfflineObjectRecursive en obj w))
            = containers w @ [setIsFavorite 2 obj, setIsFavorite 2 (object sync)]"
      using ful f by simp
  qed
qed


text \<open>
  With a request for B waiting, a synchronisation of A that fails at the listing is rejected,
  B is still waiting afterwards, and no download but that of A was begun.
\<close>

theorem queue_popped_on_failure_counterexample:
  "map (\<lambda>s. objId (object s)) (recursiveSyncQueue pendingB) = [2]
   \<and> fst (loadOfflineObjectRecursive noListing courseA pendingB) = Rejected (Failure 1)
   \<and> map (\<lambda>s. objId (object s))
        (recursiveSyncQueue (snd (loadOfflineObjectRecursive noListing courseA pendingB))) = [2]
   \<and> map objId (containers (snd (loadOfflineObjectRecursive noListing courseA pendingB))) = [1]"
  by code_simp

theorem queue_popped_on_success_only_witness:
  "recursiveSyncQueue (snd (loadOfflineObjectRecursive calm courseA pendingB)) = []
   \<and> map objId (containers (snd (loadOfflineObjectRecursive calm courseA pendingB))) = [1, 2]"
proof -
  have f: "fst (loadOfflineObjectRecursive calm courseA pendingB) = Fulfilled emptySummary"
    by code_simp
  have q: "recursiveSyncQueue pendingB = [] @ [\<lparr>object = setIsFavorite 2 courseB, waiter = 0\<rparr>]"
    by code_simp
  have c: "containers pendingB = []"
    by code_simp
  note t = queue_popped_on_success_only
      [where en = calm and obj = courseA and w = pendingB and r = emptySummary and q = "[]"
         and sync = "\<lparr>object = setIsFavorite 2 courseB, waiter = 0\<rparr>"]
  have "recursiveSyncQueue (snd (loadOfflineObjectRecursive calm courseA pendingB)) = []
        \<and> containers (snd (loadOfflineObjectRecursive calm courseA pendingB))
            = containers pendingB @ [setIsFavorite 2 courseA,
                setIsFavorite 2 (object \<lparr>object = setIsFavorite 2 courseB, waiter = 0\<rparr>)]"
    using t f q by blast
  then show ?thesis
    using c by (simp add: setIsFavorite_def courseA_def courseB_def node_def)
qed

section \<open>\<^verbatim>\<open>addObjectsToSyncQueue\<close> with an empty list\<close>

text \<open>
  Claim C5 at the initial service. \<^verbatim>\<open>addObjectsToSyncQueue([])\<close> on the empty queue is
  rejected with a \<^verbatim>\<open>TypeError\<close>: the status message reads the title of the queue entry at
  the counter, and there is none.
\<close>

theorem addObjectsToSyncQueue_empty_fails:
  "addObjectsToSyncQueue calm [] initialService
     = (Rejected TypeError, initialService\<lparr>user := Some (userWith 100 50)\<rparr>)"
  by (simp add: addObjectsToSyncQueue_def thenP_def loadCurrentUser_def
      updateOfflineSyncStatusMessage_def calm_def calmEnv_def initialService_def Let_def)

text \<open>
  The same for every service whose counter is not an index of its queue; while a drain is
  under way the empty list is accepted and changes neither queue, counter, nor flags; and
  \<^verbatim>\<open>loadAllOfflineContent\<close> returns before the call when there is no favourite.
\<close>

lemma addObjectsToSyncQueue_empty_idle:
  assumes "currentUser en = Inr u" and "\<not> syncOfflineQueueCnt w < length (syncOfflineQueue w)"
  shows "addObjectsToSyncQueue en [] w = (Rejected TypeError, w\<lparr>user := Some u\<rparr>)"
  using assms
  by (simp add: addObjectsToSyncQueue_def thenP_def loadCurrentUser_def
      updateOfflineSyncStatusMessage_def Let_def)

lemma addObjectsToSyncQueue_empty_draining:
  assumes "currentUser en = Inr u" and "syncOfflineQueueCnt w < length (syncOfflineQueue w)"
    and "loadingOfflineContent (state w)"
  shows "fst (addObjectsToSyncQueue en [] w) = Fulfilled ()
     \<and> syncOfflineQueue (snd (addObjectsToSyncQueue en [] w)) = syncOfflineQueue w
     \<and> syncOfflineQueueCnt (snd (addObjectsToSyncQueue en [] w)) = syncOfflineQueueCnt w
     \<and> state (snd (addObjectsToSyncQueue en [] w)) = state w
     \<and> containers (snd (addObjectsToSyncQueue en [] w)) = containers w"
  using assms
  by (simp add: addObjectsToSyncQueue_def thenP_def loadCurrentUser_def
      updateOfflineSyncStatusMessage_def Let_def)

lemma loadAllOfflineContent_no_favorites:
  assumes "currentUser en = Inr u" and "findByUserId en (id_user u) = Inr []"
  shows "loadAllOfflineContent en w = (Fulfilled (), w\<lparr>user := Some u\<rparr>)"
  using assms by (simp add: loadAllOfflineContent_def thenP_def loadCurrentUser_def)

end
